theory Spec2Isabelle
  imports Main "HOL-Library.Word"
begin

unbundle bit_operations_syntax

section \<open>Basic types of \<open>common/common_types.h\<close>\<close>

text \<open>
  The header works on a 64-bit host: \<open>ComputePipelineCacheKey::Hash\<close> shifts a
  \<open>std::size_t\<close> left by 40 bits. \<open>std::size_t\<close>, \<open>u64\<close>, \<open>GPUVAddr\<close> and
  \<open>VAddr\<close> are 64-bit unsigned integers, \<open>u32\<close> is a 32-bit unsigned integer.
\<close>

type_synonym u32 = "32 word"
type_synonym u64 = "64 word"
type_synonym size_t = "64 word"
type_synonym GPUVAddr = "64 word"
type_synonym VAddr = "64 word"

text \<open>\<open>using ProgramCode = std::vector<u64>\<close>\<close>

type_synonym ProgramCode = "u64 list"

section \<open>\<open>struct GraphicsPipelineCacheKey\<close>\<close>

text \<open>
  \<open>FixedPipelineState\<close> and \<open>RenderPassParams\<close> are declared in other headers; the
  key is polymorphic in them. \<open>shaders\<close> is a \<open>std::array<GPUVAddr, MaxShaderProgram>\<close>:
  a list whose length is the constant \<open>Maxwell::MaxShaderProgram\<close>, which the header
  does not define either.
\<close>

record ('fs, 'rp) GraphicsPipelineCacheKey =
  fixed_state :: 'fs
  shaders :: "GPUVAddr list"
  renderpass_params :: 'rp

text \<open>
  What the two member functions take from outside the header:
  \<open>FixedPipelineState::Hash\<close> and \<open>operator==\<close>, \<open>RenderPassParams::Hash\<close> and
  \<open>operator==\<close>, and \<open>boost::hash_combine\<close> on a \<open>std::size_t\<close> seed. The seed is
  passed by reference and updated; here the combiner returns the new seed. Both a
  \<open>GPUVAddr\<close> and the \<open>std::size_t\<close> returned by \<open>RenderPassParams::Hash\<close> are
  64-bit values, so one combiner serves both calls.
\<close>

record ('fs, 'rp) KeyDeps =
  FixedPipelineState_Hash :: "'fs \<Rightarrow> size_t"
  FixedPipelineState_eq :: "'fs \<Rightarrow> 'fs \<Rightarrow> bool"
  RenderPassParams_Hash :: "'rp \<Rightarrow> size_t"
  RenderPassParams_eq :: "'rp \<Rightarrow> 'rp \<Rightarrow> bool"
  hash_combine :: "size_t \<Rightarrow> u64 \<Rightarrow> size_t"

text \<open>The loop \<open>for (const auto& shader : shaders) boost::hash_combine(hash, shader);\<close>\<close>

fun hash_shaders :: "(size_t \<Rightarrow> u64 \<Rightarrow> size_t) \<Rightarrow> size_t \<Rightarrow> GPUVAddr list \<Rightarrow> size_t" where
  "hash_shaders hc hash [] = hash"
| "hash_shaders hc hash (shader # rest) = hash_shaders hc (hc hash shader) rest"

definition GraphicsPipelineCacheKey_Hash ::
  "('fs, 'rp) KeyDeps \<Rightarrow> ('fs, 'rp) GraphicsPipelineCacheKey \<Rightarrow> size_t" where
  "GraphicsPipelineCacheKey_Hash D k =
     (let hash0 = FixedPipelineState_Hash D (fixed_state k);
          hash1 = hash_shaders (hash_combine D) hash0 (shaders k);
          hash2 = hash_combine D hash1 (RenderPassParams_Hash D (renderpass_params k))
      in hash2)"

text \<open>
  The combination order in the spec's words: start from the fixed-state hash, combine
  each shader address in stage order, then combine the render-pass-parameter hash.
\<close>

definition spec_Hash_order ::
  "('fs, 'rp) KeyDeps \<Rightarrow> ('fs, 'rp) GraphicsPipelineCacheKey \<Rightarrow> size_t" where
  "spec_Hash_order D k =
     hash_combine D
       (foldl (hash_combine D) (FixedPipelineState_Hash D (fixed_state k)) (shaders k))
       (RenderPassParams_Hash D (renderpass_params k))"

text \<open>
  \<open>operator==\<close> of \<open>std::array\<close> compares element by element. Two arrays of one
  type have the same length; lists of different lengths are unequal.
\<close>

fun array_eq :: "'a list \<Rightarrow> 'a list \<Rightarrow> bool" where
  "array_eq [] [] = True"
| "array_eq (x # xs) (y # ys) = (x = y \<and> array_eq xs ys)"
| "array_eq _ _ = False"

text \<open>
  \<open>operator==\<close> compares \<open>std::tie(fixed_state, shaders, renderpass_params)\<close> of both
  sides: tuple equality is the conjunction of the component equalities, left to right.
\<close>

definition GraphicsPipelineCacheKey_eq ::
  "('fs, 'rp) KeyDeps \<Rightarrow> ('fs, 'rp) GraphicsPipelineCacheKey
     \<Rightarrow> ('fs, 'rp) GraphicsPipelineCacheKey \<Rightarrow> bool" where
  "GraphicsPipelineCacheKey_eq D lhs rhs =
     (FixedPipelineState_eq D (fixed_state lhs) (fixed_state rhs) \<and>
      array_eq (shaders lhs) (shaders rhs) \<and>
      RenderPassParams_eq D (renderpass_params lhs) (renderpass_params rhs))"

section \<open>\<open>struct ComputePipelineCacheKey\<close>\<close>

text \<open>\<open>workgroup_size\<close> is a \<open>std::array<u32, 3>\<close>: exactly three components.\<close>

record ComputePipelineCacheKey =
  shader :: GPUVAddr
  shared_memory_size :: u32
  workgroup_size :: "u32 \<times> u32 \<times> u32"

definition wg0 :: "u32 \<times> u32 \<times> u32 \<Rightarrow> u32" where
  "wg0 w = fst w"

definition wg1 :: "u32 \<times> u32 \<times> u32 \<Rightarrow> u32" where
  "wg1 w = fst (snd w)"

definition wg2 :: "u32 \<times> u32 \<times> u32 \<Rightarrow> u32" where
  "wg2 w = snd (snd w)"

text \<open>
  \<open>static_cast<std::size_t>\<close> of an unsigned value zero-extends (\<open>ucast\<close>); \<open>>>\<close> and
  \<open><<\<close> on \<open>std::size_t\<close> are \<open>drop_bit\<close> and \<open>push_bit\<close> on 64 bits.
\<close>

definition ComputePipelineCacheKey_Hash :: "ComputePipelineCacheKey \<Rightarrow> size_t" where
  "ComputePipelineCacheKey_Hash k =
     (ucast (shader k) XOR
      push_bit 40 (drop_bit 7 (ucast (shared_memory_size k) :: size_t)) XOR
      ucast (wg0 (workgroup_size k)) XOR
      push_bit 16 (ucast (wg1 (workgroup_size k)) :: size_t) XOR
      push_bit 24 (ucast (wg2 (workgroup_size k)) :: size_t))"

text \<open>Element-wise comparison of two \<open>std::array<u32, 3>\<close>.\<close>

definition array3_eq :: "u32 \<times> u32 \<times> u32 \<Rightarrow> u32 \<times> u32 \<times> u32 \<Rightarrow> bool" where
  "array3_eq a b = (wg0 a = wg0 b \<and> wg1 a = wg1 b \<and> wg2 a = wg2 b)"

definition ComputePipelineCacheKey_eq ::
  "ComputePipelineCacheKey \<Rightarrow> ComputePipelineCacheKey \<Rightarrow> bool" where
  "ComputePipelineCacheKey_eq lhs rhs =
     (shader lhs = shader rhs \<and>
      shared_memory_size lhs = shared_memory_size rhs \<and>
      array3_eq (workgroup_size lhs) (workgroup_size rhs))"

section \<open>Descriptor binding enumeration\<close>

text \<open>
  Modelled from the spec: the resource categories of section 4.4, in the order of the
  ordering contract (constant buffers, global memory buffers, texture samples, storage
  images). The header has no type for them.
\<close>

datatype category = ConstantBuffer | GlobalBuffer | TextureSample | StorageImage

text \<open>
  Modelled from the spec: a resource a shader declares (section 4.4), with its index
  within its category and its element count (an array of textures has a count above
  one). The entry types are declared in \<open>vk_shader_decompiler.h\<close>, not in this header.
\<close>

record ResourceEntry =
  declared_index :: u32
  declared_count :: u32

text \<open>
  Modelled from the spec: \<open>ShaderEntries\<close>, declared in \<open>vk_shader_decompiler.h\<close>
  and not in this header: the resources a shader declares, one ordered sequence per
  category (sections 3 and 4.4).
\<close>

record ShaderEntries =
  const_buffers :: "ResourceEntry list"
  global_buffers :: "ResourceEntry list"
  samplers :: "ResourceEntry list"
  images :: "ResourceEntry list"

text \<open>
  Modelled from the spec: one element of the enumeration of section 4.4, with its
  binding index, byte offset, resource category and count. The header names the element
  type \<open>VkDescriptorUpdateTemplateEntryKHR\<close> of the graphics API and does not declare
  it.
\<close>

record TemplateEntry =
  dstBinding :: u32
  entry_offset :: u32
  entry_category :: category
  descriptorCount :: u32

text \<open>
  Modelled from the spec: the body of \<open>FillDescriptorUpdateTemplateEntries\<close> is not in
  the header, which only declares it with the in-out parameters \<open>binding\<close>, \<open>offset\<close>
  and \<open>template_entries\<close>. Section 4.4: every declared resource takes one binding, the
  binding index goes up by one per declared resource, the byte offset goes up by the
  resource's descriptor-template stride (a parameter here), and the categories are walked
  in the order constant buffers, global buffers, texture samples, storage images, each in
  declaration order. \<open>binding\<close> and \<open>offset\<close> are \<open>u32\<close> and wrap around.
\<close>

fun AddEntry ::
  "(category \<Rightarrow> ResourceEntry \<Rightarrow> u32) \<Rightarrow> category \<Rightarrow> ResourceEntry list
     \<Rightarrow> u32 \<times> u32 \<times> TemplateEntry list \<Rightarrow> u32 \<times> u32 \<times> TemplateEntry list" where
  "AddEntry stride c [] st = st"
| "AddEntry stride c (r # rs) (binding, offset, template_entries) =
     AddEntry stride c rs
       (binding + 1, offset + stride c r,
        template_entries @
          [\<lparr>dstBinding = binding, entry_offset = offset, entry_category = c,
            descriptorCount = declared_count r\<rparr>])"

definition FillDescriptorUpdateTemplateEntries ::
  "(category \<Rightarrow> ResourceEntry \<Rightarrow> u32) \<Rightarrow> ShaderEntries
     \<Rightarrow> u32 \<times> u32 \<times> TemplateEntry list \<Rightarrow> u32 \<times> u32 \<times> TemplateEntry list" where
  "FillDescriptorUpdateTemplateEntries stride e st =
     AddEntry stride StorageImage (images e)
       (AddEntry stride TextureSample (samplers e)
          (AddEntry stride GlobalBuffer (global_buffers e)
             (AddEntry stride ConstantBuffer (const_buffers e) st)))"

text \<open>
  The ordering contract of section 4.4 in the spec's words: the declared resources of a
  shader, constant buffers first, then global buffers, then texture samples, then storage
  images, each category in declaration order, every resource with its category.
\<close>

definition declared_resources :: "ShaderEntries \<Rightarrow> (category \<times> ResourceEntry) list" where
  "declared_resources e =
     map (Pair ConstantBuffer) (const_buffers e) @
     map (Pair GlobalBuffer) (global_buffers e) @
     map (Pair TextureSample) (samplers e) @
     map (Pair StorageImage) (images e)"

section \<open>\<open>class CachedShader\<close>\<close>

text \<open>
  The fields of the class, the host address kept by the \<open>RasterizerCacheObject\<close> base,
  and \<open>shader_instance\<close>, the identity of the object: a \<open>Shader\<close> is a
  \<open>std::shared_ptr<CachedShader>\<close>, and two pointers are the same object when they
  point to the same allocation. \<open>ShaderIR\<close> and \<open>Registry\<close> are declared elsewhere and
  are type parameters.
\<close>

record ('reg, 'ir) CachedShader =
  shader_instance :: nat
  cpu_addr :: VAddr
  gpu_addr :: GPUVAddr
  program_code :: ProgramCode
  registry :: 'reg
  shader_ir :: 'ir
  entries :: ShaderEntries

definition GetGpuAddr :: "('reg, 'ir) CachedShader \<Rightarrow> GPUVAddr" where
  "GetGpuAddr sh = gpu_addr sh"

text \<open>
  \<open>program_code.size() * sizeof(u64)\<close>, a product of two \<open>std::size_t\<close>;
  \<open>sizeof(u64)\<close> is 8.
\<close>

definition GetSizeInBytes :: "('reg, 'ir) CachedShader \<Rightarrow> size_t" where
  "GetSizeInBytes sh = of_nat (length (program_code sh)) * 8"

text \<open>
  A \<open>std::vector<u64>\<close> lives in a 64-bit address space: its elements take 8 bytes
  each, so it holds fewer than \<open>2 ^ 61\<close> of them.
\<close>

definition vector_u64_ok :: "ProgramCode \<Rightarrow> bool" where
  "vector_u64_ok code = (length code < 2 ^ 61)"

section \<open>\<open>class VKPipelineCache\<close>\<close>

text \<open>
  Modelled from the spec: the errors of section 7 that a request can surface. The header
  declares no error type.
\<close>

datatype error = DecompilationError | PipelineBuildError

text \<open>
  Modelled from the spec: the stage tag of a shader (section 3), which is the slot of a
  graphics stage in the per-stage array, or compute. \<open>Tegra::Engines::ShaderType\<close> is
  declared outside this header.
\<close>

datatype ShaderStage = GraphicsStage nat | ComputeStage

text \<open>
  Modelled from the spec: the Pipeline Object of section 3. \<open>VKGraphicsPipeline\<close> and
  \<open>VKComputePipeline\<close> are declared in other headers. A pipeline object is an opaque
  handle of the graphics API, owned by its map entry through a \<open>std::unique_ptr\<close>;
  \<open>pipeline_instance\<close> is the identity of the object, so that "the same instance" can
  be told from "an equal one".
\<close>

record Pipeline =
  pipeline_instance :: nat
  pipeline_handle :: u64

text \<open>
  Modelled from the spec: the external collaborators of section 6 (the class holds
  references to them, their classes are declared elsewhere), as they answer during one
  request: the per-stage program addresses bound in the engine (no entry for a stage
  without a program), the host address backing a GPU address, the bytecode read at an
  address with its main offset, the decompiler (\<open>None\<close> when it fails), the
  descriptor-template stride of a resource, and the two pipeline builders (\<open>None\<close>
  when construction fails). They can answer differently from one request to the next.
\<close>

record ('fs, 'rp, 'reg, 'ir) Env =
  bound_programs :: "GPUVAddr option list"
  host_address :: "GPUVAddr \<Rightarrow> VAddr"
  read_program :: "ShaderStage \<Rightarrow> GPUVAddr \<Rightarrow> ProgramCode \<times> u32"
  Decompile :: "ProgramCode \<Rightarrow> ShaderStage \<Rightarrow> u32 \<Rightarrow> ('ir \<times> 'reg \<times> ShaderEntries) option"
  template_stride :: "category \<Rightarrow> ResourceEntry \<Rightarrow> u32"
  build_graphics ::
    "('fs, 'rp) GraphicsPipelineCacheKey \<Rightarrow> ('reg, 'ir) CachedShader option list
       \<Rightarrow> TemplateEntry list \<Rightarrow> u64 option"
  build_compute ::
    "ComputePipelineCacheKey \<Rightarrow> ('reg, 'ir) CachedShader \<Rightarrow> TemplateEntry list \<Rightarrow> u64 option"

text \<open>
  The state of a cache instance. \<open>last_graphics_key\<close>, \<open>last_graphics_pipeline\<close> (a raw
  pointer, \<open>None\<close> for \<open>nullptr\<close>), \<open>graphics_cache\<close> and \<open>compute_cache\<close> are the
  fields of the class; the pipeline objects are never changed after construction, so a
  pointer to one is modelled by the object. The \<open>std::unordered_map\<close>s are maps on key
  values: \<open>operator==\<close> of the key types is equality of the fields.
  Modelled from the spec: \<open>shader_cache\<close>, the Shader Object Cache held by the base
  class \<open>RasterizerCache<Shader>\<close>, which is declared in another header (section 2: a
  map from GPU virtual address to Shader Object). \<open>next_instance\<close> numbers the objects
  the cache allocates. The header also declares \<open>last_shaders\<close>; no operation of the
  spec reads or writes it, and it is left out.
\<close>

record ('fs, 'rp, 'reg, 'ir) VKPipelineCache =
  shader_cache :: "GPUVAddr \<rightharpoonup> ('reg, 'ir) CachedShader"
  last_graphics_key :: "('fs, 'rp) GraphicsPipelineCacheKey"
  last_graphics_pipeline :: "Pipeline option"
  graphics_cache :: "('fs, 'rp) GraphicsPipelineCacheKey \<rightharpoonup> Pipeline"
  compute_cache :: "ComputePipelineCacheKey \<rightharpoonup> Pipeline"
  next_instance :: nat

text \<open>
  A freshly constructed cache: empty maps, null fast-path pointer and a
  default-constructed \<open>last_graphics_key\<close> (the argument).
\<close>

definition VKPipelineCache_init ::
  "('fs, 'rp) GraphicsPipelineCacheKey \<Rightarrow> ('fs, 'rp, 'reg, 'ir) VKPipelineCache" where
  "VKPipelineCache_init k0 =
     \<lparr>shader_cache = Map.empty, last_graphics_key = k0, last_graphics_pipeline = None,
      graphics_cache = Map.empty, compute_cache = Map.empty, next_instance = 0\<rparr>"

text \<open>
  Modelled from the spec: the Shader Object Cache lookup of section 4.1,
  \<open>GetOrCreate(stage, gpu_addr, cpu_addr)\<close>, whose code is in the missing
  \<open>vk_pipeline_cache.cpp\<close> and the base class. It returns the cached object if present;
  otherwise it reads the bytecode and the main offset, calls the decompiler, fails with
  \<open>DecompilationError\<close> if that fails, and else inserts the new object under
  \<open>gpu_addr\<close> and returns it.
\<close>

definition GetOrCreate ::
  "('fs, 'rp, 'reg, 'ir) Env \<Rightarrow> ShaderStage \<Rightarrow> GPUVAddr \<Rightarrow> VAddr
     \<Rightarrow> ('fs, 'rp, 'reg, 'ir) VKPipelineCache
     \<Rightarrow> (error + ('reg, 'ir) CachedShader) \<times> ('fs, 'rp, 'reg, 'ir) VKPipelineCache" where
  "GetOrCreate E stage gaddr caddr s =
     (case shader_cache s gaddr of
        Some sh \<Rightarrow> (Inr sh, s)
      | None \<Rightarrow>
          (case read_program E stage gaddr of (code, main_offset) \<Rightarrow>
             (case Decompile E code stage main_offset of
                None \<Rightarrow> (Inl DecompilationError, s)
              | Some (ir, reg, ents) \<Rightarrow>
                  (let sh = \<lparr>shader_instance = next_instance s, cpu_addr = caddr,
                             gpu_addr = gaddr, program_code = code, registry = reg,
                             shader_ir = ir, entries = ents\<rparr>
                   in (Inr sh,
                       s\<lparr>shader_cache := (shader_cache s)(gaddr \<mapsto> sh),
                         next_instance := Suc (next_instance s)\<rparr>)))))"

text \<open>
  Modelled from the spec: resolving an array of per-stage addresses through section 4.1,
  stage by stage from slot \<open>i\<close> on; a stage without a program yields an empty slot, and
  the first failure is surfaced.
\<close>

fun resolve_stages ::
  "('fs, 'rp, 'reg, 'ir) Env \<Rightarrow> nat \<Rightarrow> GPUVAddr option list
     \<Rightarrow> ('fs, 'rp, 'reg, 'ir) VKPipelineCache
     \<Rightarrow> (error + ('reg, 'ir) CachedShader option list) \<times> ('fs, 'rp, 'reg, 'ir) VKPipelineCache" where
  "resolve_stages E i [] s = (Inr [], s)"
| "resolve_stages E i (None # rest) s =
     (case resolve_stages E (Suc i) rest s of
        (Inl e, s') \<Rightarrow> (Inl e, s')
      | (Inr shs, s') \<Rightarrow> (Inr (None # shs), s'))"
| "resolve_stages E i (Some a # rest) s =
     (case GetOrCreate E (GraphicsStage i) a (host_address E a) s of
        (Inl e, s') \<Rightarrow> (Inl e, s')
      | (Inr sh, s') \<Rightarrow>
          (case resolve_stages E (Suc i) rest s' of
             (Inl e, s'') \<Rightarrow> (Inl e, s'')
           | (Inr shs, s'') \<Rightarrow> (Inr (Some sh # shs), s'')))"

text \<open>
  Modelled from the spec: \<open>GetShaders\<close> (section 4.2), declared in the header without a
  body. It reads the per-stage program addresses bound in the engine and resolves each
  through section 4.1.
\<close>

definition GetShaders ::
  "('fs, 'rp, 'reg, 'ir) Env \<Rightarrow> ('fs, 'rp, 'reg, 'ir) VKPipelineCache
     \<Rightarrow> (error + ('reg, 'ir) CachedShader option list) \<times> ('fs, 'rp, 'reg, 'ir) VKPipelineCache" where
  "GetShaders E s = resolve_stages E 0 (bound_programs E) s"

text \<open>
  Modelled from the spec: the binding layout of the resolved shaders of a pipeline, by
  the enumeration of section 4.4 over the entries of each shader in stage order, the
  binding and the offset running on from one stage to the next.
\<close>

fun enumerate_bindings ::
  "(category \<Rightarrow> ResourceEntry \<Rightarrow> u32) \<Rightarrow> ('reg, 'ir) CachedShader option list
     \<Rightarrow> u32 \<times> u32 \<times> TemplateEntry list \<Rightarrow> u32 \<times> u32 \<times> TemplateEntry list" where
  "enumerate_bindings stride [] st = st"
| "enumerate_bindings stride (None # shs) st = enumerate_bindings stride shs st"
| "enumerate_bindings stride (Some sh # shs) st =
     enumerate_bindings stride shs
       (FillDescriptorUpdateTemplateEntries stride (entries sh) st)"

text \<open>
  Modelled from the spec: step 3 of \<open>GetGraphicsPipeline\<close> (section 4.2), the miss
  path. The shaders the key refers to are resolved through section 4.1 (address zero
  marks an unused stage), the bindings are enumerated, and the pipeline builder is asked
  for a new object; if it fails the request fails with \<open>PipelineBuildError\<close> and
  nothing is inserted; else the object is inserted under the key and the fast-path slot
  is set to it.
\<close>

definition CreateGraphicsPipeline ::
  "('fs, 'rp, 'reg, 'ir) Env \<Rightarrow> ('fs, 'rp) GraphicsPipelineCacheKey
     \<Rightarrow> ('fs, 'rp, 'reg, 'ir) VKPipelineCache
     \<Rightarrow> (error + Pipeline) \<times> ('fs, 'rp, 'reg, 'ir) VKPipelineCache" where
  "CreateGraphicsPipeline E key s =
     (case resolve_stages E 0
             (map (\<lambda>a. if a = 0 then None else Some a) (shaders key)) s of
        (Inl e, s') \<Rightarrow> (Inl e, s')
      | (Inr shs, s') \<Rightarrow>
          (case build_graphics E key shs
                  (snd (snd (enumerate_bindings (template_stride E) shs (0, 0, [])))) of
             None \<Rightarrow> (Inl PipelineBuildError, s')
           | Some h \<Rightarrow>
               (let p = \<lparr>pipeline_instance = next_instance s', pipeline_handle = h\<rparr>
                in (Inr p,
                    s'\<lparr>graphics_cache := (graphics_cache s')(key \<mapsto> p),
                       last_graphics_key := key,
                       last_graphics_pipeline := Some p,
                       next_instance := Suc (next_instance s')\<rparr>))))"

text \<open>
  Modelled from the spec: \<open>GetGraphicsPipeline\<close> (section 4.2), declared in the header
  without a body. Step 1, the fast path: if the key equals \<open>last_graphics_key\<close> and the
  last pipeline pointer is set, that pipeline is returned and nothing else is touched.
  Step 2: a key found in the graphics map becomes the fast-path entry and its pipeline
  is returned. Step 3: the miss path above.
\<close>

definition GetGraphicsPipeline ::
  "('fs, 'rp, 'reg, 'ir) Env \<Rightarrow> ('fs, 'rp) GraphicsPipelineCacheKey
     \<Rightarrow> ('fs, 'rp, 'reg, 'ir) VKPipelineCache
     \<Rightarrow> (error + Pipeline) \<times> ('fs, 'rp, 'reg, 'ir) VKPipelineCache" where
  "GetGraphicsPipeline E key s =
     (case (if key = last_graphics_key s then last_graphics_pipeline s else None) of
        Some p \<Rightarrow> (Inr p, s)
      | None \<Rightarrow>
          (case graphics_cache s key of
             Some p \<Rightarrow>
               (Inr p, s\<lparr>last_graphics_key := key, last_graphics_pipeline := Some p\<rparr>)
           | None \<Rightarrow> CreateGraphicsPipeline E key s))"

text \<open>
  Modelled from the spec: \<open>GetComputePipeline\<close> (section 4.3), declared in the header
  without a body: a map lookup, and on a miss the single shader is resolved through
  section 4.1, its bindings are enumerated and the builder is asked for a new object,
  which is inserted under the key. There is no fast-path slot.
\<close>

definition GetComputePipeline ::
  "('fs, 'rp, 'reg, 'ir) Env \<Rightarrow> ComputePipelineCacheKey
     \<Rightarrow> ('fs, 'rp, 'reg, 'ir) VKPipelineCache
     \<Rightarrow> (error + Pipeline) \<times> ('fs, 'rp, 'reg, 'ir) VKPipelineCache" where
  "GetComputePipeline E key s =
     (case compute_cache s key of
        Some p \<Rightarrow> (Inr p, s)
      | None \<Rightarrow>
          (case GetOrCreate E ComputeStage (shader key) (host_address E (shader key)) s of
             (Inl e, s') \<Rightarrow> (Inl e, s')
           | (Inr sh, s') \<Rightarrow>
               (case build_compute E key sh
                       (snd (snd (FillDescriptorUpdateTemplateEntries (template_stride E)
                                    (entries sh) (0, 0, [])))) of
                  None \<Rightarrow> (Inl PipelineBuildError, s')
                | Some h \<Rightarrow>
                    (let p = \<lparr>pipeline_instance = next_instance s', pipeline_handle = h\<rparr>
                     in (Inr p,
                         s'\<lparr>compute_cache := (compute_cache s')(key \<mapsto> p),
                            next_instance := Suc (next_instance s')\<rparr>)))))"

text \<open>
  Modelled from the spec: \<open>Unregister\<close> (section 4.1), declared in the header without
  a body. The policy the spec settles on: the address of the shader is removed from the
  Shader Object Cache; no back-pointers from shaders to pipeline entries are kept, and
  the graphics and compute maps are not touched.
\<close>

definition Unregister ::
  "('reg, 'ir) CachedShader \<Rightarrow> ('fs, 'rp, 'reg, 'ir) VKPipelineCache
     \<Rightarrow> ('fs, 'rp, 'reg, 'ir) VKPipelineCache" where
  "Unregister sh s = s\<lparr>shader_cache := (shader_cache s)(GetGpuAddr sh := None)\<rparr>"

text \<open>
  The interface a cache instance exposes (section 6 of the spec), as calls with the
  answers of the collaborators during the call, and the state after a sequence of calls.
\<close>

datatype ('fs, 'rp, 'reg, 'ir) call =
    CallGetShaders "('fs, 'rp, 'reg, 'ir) Env"
  | CallGetGraphicsPipeline "('fs, 'rp, 'reg, 'ir) Env" "('fs, 'rp) GraphicsPipelineCacheKey"
  | CallGetComputePipeline "('fs, 'rp, 'reg, 'ir) Env" ComputePipelineCacheKey
  | CallUnregister "('reg, 'ir) CachedShader"

fun step ::
  "('fs, 'rp, 'reg, 'ir) call \<Rightarrow> ('fs, 'rp, 'reg, 'ir) VKPipelineCache
     \<Rightarrow> ('fs, 'rp, 'reg, 'ir) VKPipelineCache" where
  "step (CallGetShaders E) s = snd (GetShaders E s)"
| "step (CallGetGraphicsPipeline E k) s = snd (GetGraphicsPipeline E k s)"
| "step (CallGetComputePipeline E k) s = snd (GetComputePipeline E k s)"
| "step (CallUnregister sh) s = Unregister sh s"

fun run ::
  "('fs, 'rp, 'reg, 'ir) call list \<Rightarrow> ('fs, 'rp, 'reg, 'ir) VKPipelineCache
     \<Rightarrow> ('fs, 'rp, 'reg, 'ir) VKPipelineCache" where
  "run [] s = s"
| "run (c # cs) s = run cs (step c s)"

text \<open>
  The pipeline-cache component of the state (section 2 of the spec): the two maps and
  the fast-path slot.
\<close>

definition pipeline_state ::
  "('fs, 'rp, 'reg, 'ir) VKPipelineCache \<Rightarrow>
     (('fs, 'rp) GraphicsPipelineCacheKey \<rightharpoonup> Pipeline) \<times> (ComputePipelineCacheKey \<rightharpoonup> Pipeline)
       \<times> ('fs, 'rp) GraphicsPipelineCacheKey \<times> Pipeline option" where
  "pipeline_state s =
     (graphics_cache s, compute_cache s, last_graphics_key s, last_graphics_pipeline s)"

section \<open>Invariants of the cache state\<close>

text \<open>
  Every registered shader object sits under its own GPU address and was allocated by
  this cache.
\<close>

definition shader_inv :: "('fs, 'rp, 'reg, 'ir) VKPipelineCache \<Rightarrow> bool" where
  "shader_inv s =
     (\<forall>a sh. shader_cache s a = Some sh \<longrightarrow>
        gpu_addr sh = a \<and> shader_instance sh < next_instance s)"

text \<open>The fast-path slot, when set, repeats an entry of the graphics map.\<close>

definition fast_inv :: "('fs, 'rp, 'reg, 'ir) VKPipelineCache \<Rightarrow> bool" where
  "fast_inv s =
     (\<forall>p. last_graphics_pipeline s = Some p \<longrightarrow>
        graphics_cache s (last_graphics_key s) = Some p)"

text \<open>Every pipeline object in a map was allocated by this cache.\<close>

definition pipeline_inv :: "('fs, 'rp, 'reg, 'ir) VKPipelineCache \<Rightarrow> bool" where
  "pipeline_inv s =
     ((\<forall>k p. graphics_cache s k = Some p \<longrightarrow> pipeline_instance p < next_instance s) \<and>
      (\<forall>k p. compute_cache s k = Some p \<longrightarrow> pipeline_instance p < next_instance s))"

text \<open>
  What resolving shaders does to a state: the pipeline maps and the fast-path slot stay,
  registered shaders stay, and every shader registered on the way is a new object under
  its own address.
\<close>

definition extends ::
  "('fs, 'rp, 'reg, 'ir) VKPipelineCache \<Rightarrow> ('fs, 'rp, 'reg, 'ir) VKPipelineCache \<Rightarrow> bool" where
  "extends s s' =
     (pipeline_state s' = pipeline_state s \<and>
      next_instance s \<le> next_instance s' \<and>
      (\<forall>b sh. shader_cache s b = Some sh \<longrightarrow> shader_cache s' b = Some sh) \<and>
      (\<forall>b sh. shader_cache s' b = Some sh \<longrightarrow>
         shader_cache s b = Some sh \<or>
         (gpu_addr sh = b \<and> next_instance s \<le> shader_instance sh \<and>
          shader_instance sh < next_instance s')))"

text \<open>
  The shaders returned for an array of per-stage addresses are the ones registered under
  these addresses.
\<close>

definition resolved ::
  "('fs, 'rp, 'reg, 'ir) VKPipelineCache \<Rightarrow> GPUVAddr option list
     \<Rightarrow> ('reg, 'ir) CachedShader option list \<Rightarrow> bool" where
  "resolved s addrs shs =
     list_all2 (\<lambda>a sh. case a of None \<Rightarrow> sh = None
                        | Some x \<Rightarrow> sh \<noteq> None \<and> shader_cache s x = sh) addrs shs"

text \<open>The three invariants together.\<close>

definition invs :: "('fs, 'rp, 'reg, 'ir) VKPipelineCache \<Rightarrow> bool" where
  "invs s = (shader_inv s \<and> fast_inv s \<and> pipeline_inv s)"

section \<open>Example inputs\<close>

text \<open>
  Component operations for a key whose fixed state and render-pass parameters are
  numbers: two fixed states are equal when they have the same parity, and the hash of a
  fixed state is its parity; the combiner is \<open>31 * seed + value\<close>.
\<close>

definition ex_deps :: "(nat, nat) KeyDeps" where
  "ex_deps =
     \<lparr>FixedPipelineState_Hash = (\<lambda>x. of_nat (x mod 2)),
      FixedPipelineState_eq = (\<lambda>x y. x mod 2 = y mod 2),
      RenderPassParams_Hash = of_nat,
      RenderPassParams_eq = (=),
      hash_combine = (\<lambda>seed v. 31 * seed + v)\<rparr>"

text \<open>The same with a combiner \<open>value - seed\<close>, which is one-to-one in the seed.\<close>

definition ex_deps_sub :: "(nat, nat) KeyDeps" where
  "ex_deps_sub = ex_deps\<lparr>hash_combine := (\<lambda>seed v. v - seed)\<rparr>"

text \<open>A graphics key with a vertex and a fragment program, for six stages.\<close>

definition ex_key :: "nat \<Rightarrow> (nat, nat) GraphicsPipelineCacheKey" where
  "ex_key n = \<lparr>fixed_state = n, shaders = [0x1000, 0, 0, 0, 0x2000, 0], renderpass_params = 0\<rparr>"

definition ex_key_swapped :: "nat \<Rightarrow> (nat, nat) GraphicsPipelineCacheKey" where
  "ex_key_swapped n =
     \<lparr>fixed_state = n, shaders = [0, 0x1000, 0, 0, 0x2000, 0], renderpass_params = 0\<rparr>"

text \<open>
  The compute keys of the spec's example, and two keys whose shared-memory sizes lie in
  the same 128-byte bucket.
\<close>

definition ex_compute :: "u32 \<Rightarrow> u32 \<times> u32 \<times> u32 \<Rightarrow> ComputePipelineCacheKey" where
  "ex_compute sz wg = \<lparr>shader = 0x1000, shared_memory_size = sz, workgroup_size = wg\<rparr>"

text \<open>A shader with 2 constant buffers, 1 global buffer and 3 texture samples.\<close>

definition ex_entries :: ShaderEntries where
  "ex_entries =
     \<lparr>const_buffers = [\<lparr>declared_index = 0, declared_count = 1\<rparr>,
                       \<lparr>declared_index = 1, declared_count = 1\<rparr>],
      global_buffers = [\<lparr>declared_index = 0, declared_count = 1\<rparr>],
      samplers = [\<lparr>declared_index = 0, declared_count = 1\<rparr>,
                  \<lparr>declared_index = 1, declared_count = 4\<rparr>,
                  \<lparr>declared_index = 2, declared_count = 1\<rparr>],
      images = []\<rparr>"

definition ex_stride :: "category \<Rightarrow> ResourceEntry \<Rightarrow> u32" where
  "ex_stride c r = 8 * declared_count r"

text \<open>
  Collaborators: programs bound at the vertex and the fragment slot, a three-word
  program at every address, a decompiler whose IR is the word count, and a graphics
  builder that rejects fixed state 0.
\<close>

definition ex_env :: "(nat, nat, unit, nat) Env" where
  "ex_env =
     \<lparr>bound_programs = [Some 0x1000, None, None, None, Some 0x2000, None],
      host_address = (\<lambda>a. a),
      read_program = (\<lambda>st a. ([1, 2, 3], 10)),
      Decompile = (\<lambda>code st off. Some (length code, (), ex_entries)),
      template_stride = ex_stride,
      build_graphics = (\<lambda>k shs layout. if fixed_state k = 0 then None else Some 7),
      build_compute = (\<lambda>k sh layout. Some 9)\<rparr>"

text \<open>The same collaborators with a decompiler that fails.\<close>

definition ex_env_nodecompile :: "(nat, nat, unit, nat) Env" where
  "ex_env_nodecompile = ex_env\<lparr>Decompile := (\<lambda>code st off. None)\<rparr>"

text \<open>The shader objects the example collaborators give at the two addresses.\<close>

definition ex_shader :: "nat \<Rightarrow> GPUVAddr \<Rightarrow> (unit, nat) CachedShader" where
  "ex_shader n a =
     \<lparr>shader_instance = n, cpu_addr = a, gpu_addr = a, program_code = [1, 2, 3],
      registry = (), shader_ir = 3, entries = ex_entries\<rparr>"

definition ex_init :: "(nat, nat, unit, nat) VKPipelineCache" where
  "ex_init = VKPipelineCache_init (ex_key 0)"

section \<open>Keys: auxiliary facts\<close>

lemma array_eq_iff: "array_eq xs ys \<longleftrightarrow> xs = ys"
  by (induction xs ys rule: array_eq.induct) auto

lemma hash_shaders_foldl: "hash_shaders hc h xs = foldl hc h xs"
  by (induction xs arbitrary: h) auto

lemma drop_bit_7_ucast: "drop_bit 7 (ucast (s :: u32) :: size_t) = ucast (drop_bit 7 s)"
  by (rule bit_word_eqI) (auto simp: bit_simps dest: bit_imp_le_length)

lemma key_eq_value:
  "FixedPipelineState_eq D = (=) \<Longrightarrow> RenderPassParams_eq D = (=) \<Longrightarrow>
   GraphicsPipelineCacheKey_eq D a b \<longleftrightarrow> a = b"
  by (cases a; cases b) (simp add: GraphicsPipelineCacheKey_eq_def array_eq_iff)

lemma foldl_inj:
  assumes "\<And>v. inj (\<lambda>h. hc h v)"
  shows "foldl hc h xs = foldl hc h' xs \<longleftrightarrow> h = h'"
  using assms by (induction xs arbitrary: h h') (auto dest: injD)

lemma inj_sub_seed: "inj (\<lambda>h :: size_t. v - h)"
  by (simp add: inj_def)

section \<open>Binding enumeration: closed form\<close>

lemma upt_shift:
  "map (\<lambda>i. (b::u32) + of_nat i) [0..<Suc n] = b # map (\<lambda>i. (b + 1) + of_nat i) [0..<n]"
proof -
  have "[0..<Suc n] = 0 # map Suc [0..<n]"
    by (simp add: upt_conv_Cons map_Suc_upt del: upt_Suc)
  then show ?thesis
    by (simp add: comp_def ac_simps del: upt_Suc)
qed

lemma AddEntry_closed:
  "\<exists>offset' new.
     AddEntry stride c rs (binding, offset, out) =
       (binding + of_nat (length rs), offset', out @ new) \<and>
     map dstBinding new = map (\<lambda>i. binding + of_nat i) [0..<length rs] \<and>
     map entry_category new = map (\<lambda>r. c) rs \<and>
     map descriptorCount new = map declared_count rs"
proof (induction rs arbitrary: binding offset out)
  case Nil
  then show ?case by simp
next
  case (Cons r rs)
  let ?t = "\<lparr>dstBinding = binding, entry_offset = offset, entry_category = c,
            descriptorCount = declared_count r\<rparr>"
  from Cons.IH [of "binding + 1" "offset + stride c r" "out @ [?t]"]
  obtain offset' new where
    run: "AddEntry stride c rs (binding + 1, offset + stride c r, out @ [?t]) =
            (binding + 1 + of_nat (length rs), offset', (out @ [?t]) @ new)"
    and b: "map dstBinding new = map (\<lambda>i. binding + 1 + of_nat i) [0..<length rs]"
    and c: "map entry_category new = map (\<lambda>r. c) rs"
    and n: "map descriptorCount new = map declared_count rs"
    by blast
  show ?case
  proof (intro exI conjI)
    show "AddEntry stride c (r # rs) (binding, offset, out) =
            (binding + of_nat (length (r # rs)), offset', out @ (?t # new))"
      using run by (simp add: ac_simps)
    show "map dstBinding (?t # new) = map (\<lambda>i. binding + of_nat i) [0..<length (r # rs)]"
      using b upt_shift [of binding "length rs"] by simp
    show "map entry_category (?t # new) = map (\<lambda>r. c) (r # rs)"
      using c by simp
    show "map descriptorCount (?t # new) = map declared_count (r # rs)"
      using n by simp
  qed
qed

lemma upt_append_shift:
  "map (\<lambda>i. (b::u32) + of_nat i) [0..<m + n] =
   map (\<lambda>i. b + of_nat i) [0..<m] @ map (\<lambda>i. (b + of_nat m) + of_nat i) [0..<n]"
proof -
  have "[0..<m + n] = [0..<m] @ [m..<m + n]"
    by (rule upt_add_eq_append) simp
  also have "[m..<m + n] = map (\<lambda>i. i + m) [0..<n]"
    by (simp only: map_add_upt add.commute)
  finally have "[0..<m + n] = [0..<m] @ map (\<lambda>i. i + m) [0..<n]" .
  then show ?thesis
    by (simp add: comp_def add.assoc add.commute)
qed

lemma Fill_closed:
  "\<exists>offset' new.
     FillDescriptorUpdateTemplateEntries stride e (binding, offset, out) =
       (binding + of_nat (length (declared_resources e)), offset', out @ new) \<and>
     map dstBinding new = map (\<lambda>i. binding + of_nat i) [0..<length (declared_resources e)] \<and>
     map entry_category new = map fst (declared_resources e) \<and>
     map descriptorCount new = map (\<lambda>cr. declared_count (snd cr)) (declared_resources e)"
proof -
  let ?cb = "const_buffers e" and ?gb = "global_buffers e" and ?sm = "samplers e" and ?im = "images e"
  obtain o1 n1 where
    r1: "AddEntry stride ConstantBuffer ?cb (binding, offset, out) =
           (binding + of_nat (length ?cb), o1, out @ n1)"
    and b1: "map dstBinding n1 = map (\<lambda>i. binding + of_nat i) [0..<length ?cb]"
    and c1: "map entry_category n1 = map (\<lambda>r. ConstantBuffer) ?cb"
    and d1: "map descriptorCount n1 = map declared_count ?cb"
    using AddEntry_closed [of stride ConstantBuffer ?cb binding offset out] by blast
  obtain o2 n2 where
    r2: "AddEntry stride GlobalBuffer ?gb (binding + of_nat (length ?cb), o1, out @ n1) =
           (binding + of_nat (length ?cb) + of_nat (length ?gb), o2, (out @ n1) @ n2)"
    and b2: "map dstBinding n2 = map (\<lambda>i. binding + of_nat (length ?cb) + of_nat i) [0..<length ?gb]"
    and c2: "map entry_category n2 = map (\<lambda>r. GlobalBuffer) ?gb"
    and d2: "map descriptorCount n2 = map declared_count ?gb"
    using AddEntry_closed [of stride GlobalBuffer ?gb "binding + of_nat (length ?cb)" o1 "out @ n1"] by blast
  obtain o3 n3 where
    r3: "AddEntry stride TextureSample ?sm
           (binding + of_nat (length ?cb) + of_nat (length ?gb), o2, (out @ n1) @ n2) =
           (binding + of_nat (length ?cb) + of_nat (length ?gb) + of_nat (length ?sm), o3,
            ((out @ n1) @ n2) @ n3)"
    and b3: "map dstBinding n3 =
               map (\<lambda>i. binding + of_nat (length ?cb) + of_nat (length ?gb) + of_nat i) [0..<length ?sm]"
    and c3: "map entry_category n3 = map (\<lambda>r. TextureSample) ?sm"
    and d3: "map descriptorCount n3 = map declared_count ?sm"
    using AddEntry_closed [of stride TextureSample ?sm
        "binding + of_nat (length ?cb) + of_nat (length ?gb)" o2 "(out @ n1) @ n2"] by blast
  obtain o4 n4 where
    r4: "AddEntry stride StorageImage ?im
           (binding + of_nat (length ?cb) + of_nat (length ?gb) + of_nat (length ?sm), o3,
            ((out @ n1) @ n2) @ n3) =
           (binding + of_nat (length ?cb) + of_nat (length ?gb) + of_nat (length ?sm)
              + of_nat (length ?im), o4, (((out @ n1) @ n2) @ n3) @ n4)"
    and b4: "map dstBinding n4 =
               map (\<lambda>i. binding + of_nat (length ?cb) + of_nat (length ?gb) + of_nat (length ?sm)
                      + of_nat i) [0..<length ?im]"
    and c4: "map entry_category n4 = map (\<lambda>r. StorageImage) ?im"
    and d4: "map descriptorCount n4 = map declared_count ?im"
    using AddEntry_closed [of stride StorageImage ?im
        "binding + of_nat (length ?cb) + of_nat (length ?gb) + of_nat (length ?sm)" o3
        "((out @ n1) @ n2) @ n3"] by blast
  have len: "length (declared_resources e) = length ?cb + (length ?gb + (length ?sm + length ?im))"
    by (simp add: declared_resources_def)
  show ?thesis
  proof (intro exI conjI)
    show "FillDescriptorUpdateTemplateEntries stride e (binding, offset, out) =
       (binding + of_nat (length (declared_resources e)), o4, out @ (n1 @ n2 @ n3 @ n4))"
      unfolding FillDescriptorUpdateTemplateEntries_def r1 r2 r3 r4 len
      by (simp add: add.assoc)
    show "map dstBinding (n1 @ n2 @ n3 @ n4) =
            map (\<lambda>i. binding + of_nat i) [0..<length (declared_resources e)]"
      unfolding len
      by (simp only: upt_append_shift map_append b1 b2 b3 b4)
    show "map entry_category (n1 @ n2 @ n3 @ n4) = map fst (declared_resources e)"
      by (simp add: declared_resources_def c1 c2 c3 c4 comp_def)
    show "map descriptorCount (n1 @ n2 @ n3 @ n4) =
            map (\<lambda>cr. declared_count (snd cr)) (declared_resources e)"
      by (simp add: declared_resources_def d1 d2 d3 d4 comp_def)
  qed
qed

section \<open>Resolving shaders\<close>

lemma GetOrCreate_disj:
  "GetOrCreate E st a c s = (r, s') \<Longrightarrow>
     (\<exists>sh. shader_cache s a = Some sh \<and> r = Inr sh \<and> s' = s) \<or>
     (shader_cache s a = None \<and> r = Inl DecompilationError \<and> s' = s) \<or>
     (\<exists>sh. shader_cache s a = None \<and> r = Inr sh \<and>
        shader_instance sh = next_instance s \<and> gpu_addr sh = a \<and>
        Decompile E (fst (read_program E st a)) st (snd (read_program E st a)) =
          Some (shader_ir sh, registry sh, entries sh) \<and>
        s' = s\<lparr>shader_cache := (shader_cache s)(a \<mapsto> sh),
               next_instance := Suc (next_instance s)\<rparr>)"
  by (cases "shader_cache s a"; cases "read_program E st a";
      cases "Decompile E (fst (read_program E st a)) st (snd (read_program E st a))")
     (auto simp: GetOrCreate_def Let_def)

lemma GetOrCreate_cases:
  assumes "GetOrCreate E st a c s = (r, s')"
  obtains (hit) sh where "shader_cache s a = Some sh" "r = Inr sh" "s' = s"
  | (fail) "shader_cache s a = None" "r = Inl DecompilationError" "s' = s"
  | (new) sh where "shader_cache s a = None" "r = Inr sh"
      "shader_instance sh = next_instance s" "gpu_addr sh = a"
      "Decompile E (fst (read_program E st a)) st (snd (read_program E st a)) =
         Some (shader_ir sh, registry sh, entries sh)"
      "s' = s\<lparr>shader_cache := (shader_cache s)(a \<mapsto> sh),
              next_instance := Suc (next_instance s)\<rparr>"
  using GetOrCreate_disj [OF assms] by (elim disjE exE conjE) (erule hit fail new; assumption)+

lemma extends_refl: "extends s s"
  by (simp add: extends_def)

lemma extends_trans:
  assumes "extends s t" "extends t u"
  shows "extends s u"
  unfolding extends_def
proof (intro conjI allI impI)
  show "pipeline_state u = pipeline_state s"
    using assms by (simp add: extends_def)
  show "next_instance s \<le> next_instance u"
    using assms by (simp add: extends_def)
  show "shader_cache u b = Some sh" if "shader_cache s b = Some sh" for b sh
    using assms that by (simp add: extends_def)
  show "shader_cache s b = Some sh \<or>
         (gpu_addr sh = b \<and> next_instance s \<le> shader_instance sh \<and>
          shader_instance sh < next_instance u)" if u: "shader_cache u b = Some sh" for b sh
  proof -
    from assms(2) u have "shader_cache t b = Some sh \<or>
         (gpu_addr sh = b \<and> next_instance t \<le> shader_instance sh \<and>
          shader_instance sh < next_instance u)"
      unfolding extends_def by blast
    then show ?thesis
    proof
      assume "shader_cache t b = Some sh"
      with assms(1) have "shader_cache s b = Some sh \<or>
         (gpu_addr sh = b \<and> next_instance s \<le> shader_instance sh \<and>
          shader_instance sh < next_instance t)"
        unfolding extends_def by blast
      moreover have "next_instance t \<le> next_instance u"
        using assms(2) by (simp add: extends_def)
      ultimately show ?thesis by auto
    next
      assume "gpu_addr sh = b \<and> next_instance t \<le> shader_instance sh \<and>
          shader_instance sh < next_instance u"
      moreover have "next_instance s \<le> next_instance t"
        using assms(1) by (simp add: extends_def)
      ultimately show ?thesis by auto
    qed
  qed
qed

lemma GetOrCreate_extends:
  assumes "GetOrCreate E st a c s = (r, s')"
  shows "extends s s'"
  using assms
proof (cases rule: GetOrCreate_cases)
  case (new sh)
  then show ?thesis
    by (auto simp: extends_def pipeline_state_def)
qed (simp_all add: extends_refl)

lemma GetOrCreate_registered:
  assumes "GetOrCreate E st a c s = (Inr sh, s')"
  shows "shader_cache s' a = Some sh"
  using assms by (cases rule: GetOrCreate_cases) auto

lemma resolve_stages_extends:
  "resolve_stages E i addrs s = (r, s') \<Longrightarrow> extends s s'"
proof (induction E i addrs s arbitrary: r s' rule: resolve_stages.induct)
  case (1 E i s)
  then show ?case by (simp add: extends_refl)
next
  case (2 E i rest s)
  then show ?case
    by (auto split: prod.splits sum.splits)
next
  case (3 E i a rest s)
  obtain r1 s1 where g: "GetOrCreate E (GraphicsStage i) a (host_address E a) s = (r1, s1)"
    by (cases "GetOrCreate E (GraphicsStage i) a (host_address E a) s")
  have e1: "extends s s1" using g by (rule GetOrCreate_extends)
  show ?case
  proof (cases r1)
    case (Inl e)
    with 3(2) g have "s' = s1" by simp
    with e1 show ?thesis by simp
  next
    case (Inr sh)
    obtain r2 s2 where rs: "resolve_stages E (Suc i) rest s1 = (r2, s2)"
      by (cases "resolve_stages E (Suc i) rest s1")
    have "extends s1 s2"
      using "3.IH" [OF g [symmetric] Inr rs] .
    moreover have "s' = s2"
      using 3(2) g Inr rs by (auto split: sum.splits)
    ultimately show ?thesis using e1 extends_trans by blast
  qed
qed

lemma resolved_mono:
  assumes "resolved s addrs shs" "extends s s'"
  shows "resolved s' addrs shs"
  using assms unfolding resolved_def extends_def
  by (auto elim!: list_all2_mono split: option.splits)

lemma resolve_stages_resolved:
  "resolve_stages E i addrs s = (Inr shs, s') \<Longrightarrow> resolved s' addrs shs"
proof (induction E i addrs s arbitrary: shs s' rule: resolve_stages.induct)
  case (1 E i s)
  then show ?case by (simp add: resolved_def)
next
  case (2 E i rest s)
  then show ?case
    by (auto simp: resolved_def split: prod.splits sum.splits)
next
  case (3 E i a rest s)
  obtain r1 s1 where g: "GetOrCreate E (GraphicsStage i) a (host_address E a) s = (r1, s1)"
    by (cases "GetOrCreate E (GraphicsStage i) a (host_address E a) s")
  from 3(2) g obtain sh where r1: "r1 = Inr sh"
    by (cases r1) auto
  obtain r2 s2 where rs: "resolve_stages E (Suc i) rest s1 = (r2, s2)"
    by (cases "resolve_stages E (Suc i) rest s1")
  from 3(2) g r1 rs obtain shs' where r2: "r2 = Inr shs'" and shs: "shs = Some sh # shs'" and s': "s' = s2"
    by (cases r2) auto
  have tl: "resolved s2 rest shs'"
    using "3.IH" [OF g [symmetric] r1] rs r2 by simp
  have "shader_cache s1 a = Some sh"
    using g r1 GetOrCreate_registered by blast
  moreover have "extends s1 s2"
    using rs by (rule resolve_stages_extends)
  ultimately have "shader_cache s2 a = Some sh"
    by (simp add: extends_def)
  with tl show ?case
    by (simp add: resolved_def shs s')
qed

lemma resolve_stages_hit:
  "resolved s addrs shs \<Longrightarrow> resolve_stages E i addrs s = (Inr shs, s)"
proof (induction E i addrs s arbitrary: shs rule: resolve_stages.induct)
  case (1 E i s)
  then show ?case by (simp add: resolved_def)
next
  case (2 E i rest s)
  then obtain shs' where "shs = None # shs'" "resolved s rest shs'"
    by (auto simp: resolved_def list_all2_Cons1)
  with "2.IH" show ?case by simp
next
  case (3 E i a rest s)
  from 3(2) obtain sh shs' where shs: "shs = Some sh # shs'" and c: "shader_cache s a = Some sh"
    and tl: "resolved s rest shs'"
    by (auto simp: resolved_def list_all2_Cons1)
  have g: "GetOrCreate E (GraphicsStage i) a (host_address E a) s = (Inr sh, s)"
    by (simp add: GetOrCreate_def c)
  have "resolve_stages E (Suc i) rest s = (Inr shs', s)"
    using "3.IH" [OF g [symmetric] refl tl] .
  with g show ?case by (simp add: shs)
qed


lemma extends_shader_inv:
  assumes "extends s s'" "shader_inv s"
  shows "shader_inv s'"
  unfolding shader_inv_def
proof (intro allI impI)
  fix a sh assume c: "shader_cache s' a = Some sh"
  from assms(1) c have "shader_cache s a = Some sh \<or>
         (gpu_addr sh = a \<and> next_instance s \<le> shader_instance sh \<and>
          shader_instance sh < next_instance s')"
    unfolding extends_def by blast
  moreover have "next_instance s \<le> next_instance s'"
    using assms(1) by (simp add: extends_def)
  ultimately show "gpu_addr sh = a \<and> shader_instance sh < next_instance s'"
  proof (elim disjE)
    assume "shader_cache s a = Some sh"
    with assms(2) have "gpu_addr sh = a \<and> shader_instance sh < next_instance s"
      unfolding shader_inv_def by blast
    then show ?thesis using \<open>next_instance s \<le> next_instance s'\<close> by simp
  qed simp
qed

lemma extends_fast_inv:
  assumes "extends s s'" "fast_inv s"
  shows "fast_inv s'"
  using assms by (simp add: extends_def fast_inv_def pipeline_state_def)

lemma extends_pipeline_inv:
  assumes "extends s s'" "pipeline_inv s"
  shows "pipeline_inv s'"
proof -
  have g: "graphics_cache s' = graphics_cache s" and c: "compute_cache s' = compute_cache s"
    and n: "next_instance s \<le> next_instance s'"
    using assms(1) by (simp_all add: extends_def pipeline_state_def)
  show ?thesis
    using assms(2) n unfolding pipeline_inv_def g c
    by (meson less_le_trans)
qed

text \<open>The three outcomes of a graphics request.\<close>

lemma CreateGraphicsPipeline_disj:
  "CreateGraphicsPipeline E k s = (r, s') \<Longrightarrow>
     (\<exists>e. r = Inl e \<and> extends s s') \<or>
     (\<exists>s1 shs h. extends s s1 \<and>
        resolve_stages E 0 (map (\<lambda>a. if a = 0 then None else Some a) (shaders k)) s = (Inr shs, s1) \<and>
        build_graphics E k shs
          (snd (snd (enumerate_bindings (template_stride E) shs (0, 0, [])))) = Some h \<and>
        r = Inr \<lparr>pipeline_instance = next_instance s1, pipeline_handle = h\<rparr> \<and>
        s' = s1\<lparr>graphics_cache := (graphics_cache s1)
                   (k \<mapsto> \<lparr>pipeline_instance = next_instance s1, pipeline_handle = h\<rparr>),
                 last_graphics_key := k,
                 last_graphics_pipeline :=
                   Some \<lparr>pipeline_instance = next_instance s1, pipeline_handle = h\<rparr>,
                 next_instance := Suc (next_instance s1)\<rparr>)"
proof -
  assume run: "CreateGraphicsPipeline E k s = (r, s')"
  obtain r1 s1 where rs:
    "resolve_stages E 0 (map (\<lambda>a. if a = 0 then None else Some a) (shaders k)) s = (r1, s1)"
    by (cases "resolve_stages E 0 (map (\<lambda>a. if a = 0 then None else Some a) (shaders k)) s")
  have e: "extends s s1" using rs by (rule resolve_stages_extends)
  show ?thesis
  proof (cases r1)
    case (Inl e')
    with run rs e show ?thesis by (auto simp: CreateGraphicsPipeline_def)
  next
    case (Inr shs)
    show ?thesis
    proof (cases "build_graphics E k shs
          (snd (snd (enumerate_bindings (template_stride E) shs (0, 0, []))))")
      case None
      with run rs e Inr show ?thesis by (auto simp: CreateGraphicsPipeline_def)
    next
      case (Some h)
      with run rs e Inr show ?thesis
        by (auto simp: CreateGraphicsPipeline_def Let_def)
    qed
  qed
qed

lemma GetGraphicsPipeline_disj:
  "GetGraphicsPipeline E k s = (r, s') \<Longrightarrow>
     (\<exists>p. k = last_graphics_key s \<and> last_graphics_pipeline s = Some p \<and> r = Inr p \<and> s' = s) \<or>
     (\<exists>p. graphics_cache s k = Some p \<and> r = Inr p \<and>
        s' = s\<lparr>last_graphics_key := k, last_graphics_pipeline := Some p\<rparr>) \<or>
     (graphics_cache s k = None \<and>
      (k = last_graphics_key s \<longrightarrow> last_graphics_pipeline s = None) \<and>
      CreateGraphicsPipeline E k s = (r, s'))"
  by (auto simp: GetGraphicsPipeline_def split: option.splits if_splits)

section \<open>The invariants hold in every reachable state\<close>

lemma GetComputePipeline_disj:
  "GetComputePipeline E k s = (r, s') \<Longrightarrow>
     (\<exists>p. compute_cache s k = Some p \<and> r = Inr p \<and> s' = s) \<or>
     (\<exists>e. compute_cache s k = None \<and> r = Inl e \<and> extends s s') \<or>
     (\<exists>s1 h. compute_cache s k = None \<and> extends s s1 \<and>
        r = Inr \<lparr>pipeline_instance = next_instance s1, pipeline_handle = h\<rparr> \<and>
        s' = s1\<lparr>compute_cache := (compute_cache s1)
                   (k \<mapsto> \<lparr>pipeline_instance = next_instance s1, pipeline_handle = h\<rparr>),
                 next_instance := Suc (next_instance s1)\<rparr>)"
proof -
  assume run: "GetComputePipeline E k s = (r, s')"
  show ?thesis
  proof (cases "compute_cache s k")
    case (Some p)
    with run show ?thesis by (auto simp: GetComputePipeline_def)
  next
    case None
    obtain r1 s1 where g:
      "GetOrCreate E ComputeStage (shader k) (host_address E (shader k)) s = (r1, s1)"
      by (cases "GetOrCreate E ComputeStage (shader k) (host_address E (shader k)) s")
    have e: "extends s s1" using g by (rule GetOrCreate_extends)
    show ?thesis
    proof (cases r1)
      case (Inl e')
      with run None g e show ?thesis by (auto simp: GetComputePipeline_def)
    next
      case (Inr sh)
      show ?thesis
      proof (cases "build_compute E k sh
                       (snd (snd (FillDescriptorUpdateTemplateEntries (template_stride E)
                                    (entries sh) (0, 0, []))))")
        case None': None
        with run None g e Inr show ?thesis by (auto simp: GetComputePipeline_def)
      next
        case (Some h)
        with run None g e Inr show ?thesis
          by (auto simp: GetComputePipeline_def Let_def)
      qed
    qed
  qed
qed

lemma extends_invs: "extends s s' \<Longrightarrow> invs s \<Longrightarrow> invs s'"
  by (simp add: invs_def extends_shader_inv extends_fast_inv extends_pipeline_inv)

lemma insert_graphics_invs:
  assumes "invs s1"
  shows "invs (s1\<lparr>graphics_cache := (graphics_cache s1)
                   (k \<mapsto> \<lparr>pipeline_instance = next_instance s1, pipeline_handle = h\<rparr>),
                 last_graphics_key := k,
                 last_graphics_pipeline :=
                   Some \<lparr>pipeline_instance = next_instance s1, pipeline_handle = h\<rparr>,
                 next_instance := Suc (next_instance s1)\<rparr>)"
  using assms
  by (auto simp: invs_def shader_inv_def fast_inv_def pipeline_inv_def less_Suc_eq)

lemma insert_compute_invs:
  assumes "invs s1"
  shows "invs (s1\<lparr>compute_cache := (compute_cache s1)
                   (k \<mapsto> \<lparr>pipeline_instance = next_instance s1, pipeline_handle = h\<rparr>),
                 next_instance := Suc (next_instance s1)\<rparr>)"
  using assms
  by (auto simp: invs_def shader_inv_def fast_inv_def pipeline_inv_def less_Suc_eq)

lemma GetGraphicsPipeline_invs:
  assumes "GetGraphicsPipeline E k s = (r, s')" "invs s"
  shows "invs s'"
  using GetGraphicsPipeline_disj [OF assms(1)]
proof (elim disjE exE conjE)
  fix p assume "s' = s"
  with assms(2) show ?thesis by simp
next
  fix p assume "graphics_cache s k = Some p"
    and "s' = s\<lparr>last_graphics_key := k, last_graphics_pipeline := Some p\<rparr>"
  with assms(2) show ?thesis
    by (simp add: invs_def shader_inv_def fast_inv_def pipeline_inv_def)
next
  assume "CreateGraphicsPipeline E k s = (r, s')"
  from CreateGraphicsPipeline_disj [OF this] show ?thesis
  proof (elim disjE exE conjE)
    assume "extends s s'"
    with assms(2) show ?thesis by (rule extends_invs [rotated])
  next
    fix s1 shs h
    assume "extends s s1"
    then have "invs s1" using assms(2) by (rule extends_invs)
    moreover assume "s' = s1\<lparr>graphics_cache := (graphics_cache s1)
                   (k \<mapsto> \<lparr>pipeline_instance = next_instance s1, pipeline_handle = h\<rparr>),
                 last_graphics_key := k,
                 last_graphics_pipeline :=
                   Some \<lparr>pipeline_instance = next_instance s1, pipeline_handle = h\<rparr>,
                 next_instance := Suc (next_instance s1)\<rparr>"
    ultimately show ?thesis by (simp only: insert_graphics_invs)
  qed
qed

lemma GetComputePipeline_invs:
  assumes "GetComputePipeline E k s = (r, s')" "invs s"
  shows "invs s'"
  using GetComputePipeline_disj [OF assms(1)]
proof (elim disjE exE conjE)
  assume "s' = s"
  with assms(2) show ?thesis by simp
next
  assume "extends s s'"
  with assms(2) show ?thesis by (rule extends_invs [rotated])
next
  fix s1 h
  assume "extends s s1"
  then have "invs s1" using assms(2) by (rule extends_invs)
  moreover assume "s' = s1\<lparr>compute_cache := (compute_cache s1)
                   (k \<mapsto> \<lparr>pipeline_instance = next_instance s1, pipeline_handle = h\<rparr>),
                 next_instance := Suc (next_instance s1)\<rparr>"
  ultimately show ?thesis by (simp only: insert_compute_invs)
qed

lemma Unregister_invs: "invs s \<Longrightarrow> invs (Unregister sh s)"
  by (simp add: invs_def shader_inv_def fast_inv_def pipeline_inv_def Unregister_def)

lemma step_invs: "invs s \<Longrightarrow> invs (step c s)"
proof (cases c)
  case (CallGetShaders E)
  assume "invs s"
  moreover have "extends s (snd (GetShaders E s))"
    unfolding GetShaders_def
    by (rule resolve_stages_extends [of E 0 "bound_programs E" s "fst (resolve_stages E 0 (bound_programs E) s)"]) simp
  ultimately show ?thesis using CallGetShaders by (simp add: extends_invs)
next
  case (CallGetGraphicsPipeline E k)
  assume "invs s"
  then show ?thesis
    using CallGetGraphicsPipeline
      GetGraphicsPipeline_invs [of E k s "fst (GetGraphicsPipeline E k s)" "snd (GetGraphicsPipeline E k s)"]
    by simp
next
  case (CallGetComputePipeline E k)
  assume "invs s"
  then show ?thesis
    using CallGetComputePipeline
      GetComputePipeline_invs [of E k s "fst (GetComputePipeline E k s)" "snd (GetComputePipeline E k s)"]
    by simp
next
  case (CallUnregister sh)
  assume "invs s"
  then show ?thesis using CallUnregister by (simp add: Unregister_invs)
qed

lemma run_invs: "invs s \<Longrightarrow> invs (run cs s)"
  by (induction cs arbitrary: s) (simp_all add: step_invs)

lemma init_invs: "invs (VKPipelineCache_init k0)"
  by (simp add: invs_def shader_inv_def fast_inv_def pipeline_inv_def VKPipelineCache_init_def)

text \<open>The graphics map only grows: an entry, once there, stays as it is.\<close>

lemma extends_graphics: "extends s s' \<Longrightarrow> graphics_cache s' = graphics_cache s"
  by (simp add: extends_def pipeline_state_def)

lemma GetGraphicsPipeline_keeps:
  assumes "GetGraphicsPipeline E k s = (r, s')" "graphics_cache s k' = Some p"
  shows "graphics_cache s' k' = Some p"
  using GetGraphicsPipeline_disj [OF assms(1)]
proof (elim disjE exE conjE)
  assume none: "graphics_cache s k = None" and "CreateGraphicsPipeline E k s = (r, s')"
  from CreateGraphicsPipeline_disj [OF this(2)] show ?thesis
  proof (elim disjE exE conjE)
    assume "extends s s'"
    then show ?thesis using assms(2) by (simp add: extends_graphics)
  next
    fix s1 shs h
    assume "extends s s1"
    then have g: "graphics_cache s1 = graphics_cache s" by (rule extends_graphics)
    moreover assume "s' = s1\<lparr>graphics_cache := (graphics_cache s1)
                   (k \<mapsto> \<lparr>pipeline_instance = next_instance s1, pipeline_handle = h\<rparr>),
                 last_graphics_key := k,
                 last_graphics_pipeline :=
                   Some \<lparr>pipeline_instance = next_instance s1, pipeline_handle = h\<rparr>,
                 next_instance := Suc (next_instance s1)\<rparr>"
    moreover have "k' \<noteq> k" using none assms(2) by auto
    ultimately show ?thesis using assms(2) by simp
  qed
qed (use assms(2) in simp_all)

lemma step_keeps:
  assumes "graphics_cache s k' = Some p"
  shows "graphics_cache (step c s) k' = Some p"
proof (cases c)
  case (CallGetShaders E)
  have "extends s (snd (GetShaders E s))"
    unfolding GetShaders_def
    by (rule resolve_stages_extends [of E 0 "bound_programs E" s "fst (resolve_stages E 0 (bound_programs E) s)"]) simp
  then show ?thesis using CallGetShaders assms by (simp add: extends_graphics)
next
  case (CallGetGraphicsPipeline E k)
  then show ?thesis
    using GetGraphicsPipeline_keeps [of E k s "fst (GetGraphicsPipeline E k s)" "snd (GetGraphicsPipeline E k s)", OF _ assms]
    by simp
next
  case (CallGetComputePipeline E k)
  have "graphics_cache (snd (GetComputePipeline E k s)) = graphics_cache s"
    using GetComputePipeline_disj [of E k s "fst (GetComputePipeline E k s)" "snd (GetComputePipeline E k s)"]
    by (auto simp: extends_graphics)
  then show ?thesis using CallGetComputePipeline assms by simp
next
  case (CallUnregister sh)
  then show ?thesis using assms by (simp add: Unregister_def)
qed

lemma run_keeps:
  "graphics_cache s k' = Some p \<Longrightarrow> graphics_cache (run cs s) k' = Some p"
  by (induction cs arbitrary: s) (simp_all add: step_keeps)

lemma GetGraphicsPipeline_cached:
  assumes "GetGraphicsPipeline E k s = (Inr p, s')" "invs s"
  shows "graphics_cache s' k = Some p"
  using GetGraphicsPipeline_disj [OF assms(1)]
proof (elim disjE exE conjE)
  fix p' assume "k = last_graphics_key s" "last_graphics_pipeline s = Some p'" "Inr p = Inr p'" "s' = s"
  then show ?thesis using assms(2) by (simp add: invs_def fast_inv_def)
next
  fix p' assume "graphics_cache s k = Some p'" "Inr p = Inr p'"
    "s' = s\<lparr>last_graphics_key := k, last_graphics_pipeline := Some p'\<rparr>"
  then show ?thesis by simp
next
  assume "CreateGraphicsPipeline E k s = (Inr p, s')"
  from CreateGraphicsPipeline_disj [OF this] show ?thesis
    by (elim disjE exE conjE) simp_all
qed

lemma cached_returned:
  assumes "graphics_cache s k = Some p" "invs s"
  shows "fst (GetGraphicsPipeline E k s) = Inr p"
proof (cases "k = last_graphics_key s \<and> last_graphics_pipeline s \<noteq> None")
  case True
  then obtain p' where l: "last_graphics_pipeline s = Some p'" and k: "k = last_graphics_key s" by auto
  with assms(2) have "graphics_cache s k = Some p'" by (simp add: invs_def fast_inv_def)
  with assms(1) have "p' = p" by simp
  with l k show ?thesis by (simp add: GetGraphicsPipeline_def)
next
  case False
  then show ?thesis using assms(1) by (auto simp: GetGraphicsPipeline_def)
qed

lemma GetGraphicsPipeline_dom:
  assumes "GetGraphicsPipeline E k s = (Inr p, s')" "invs s"
  shows "dom (graphics_cache s') = insert k (dom (graphics_cache s))"
  using GetGraphicsPipeline_disj [OF assms(1)]
proof (elim disjE exE conjE)
  fix p' assume "k = last_graphics_key s" "last_graphics_pipeline s = Some p'" "s' = s"
  moreover from this assms(2) have "graphics_cache s k = Some p'"
    by (simp add: invs_def fast_inv_def)
  ultimately show ?thesis by auto
next
  fix p' assume "graphics_cache s k = Some p'"
    "s' = s\<lparr>last_graphics_key := k, last_graphics_pipeline := Some p'\<rparr>"
  then show ?thesis by auto
next
  assume "CreateGraphicsPipeline E k s = (Inr p, s')"
  from CreateGraphicsPipeline_disj [OF this] show ?thesis
    by (elim disjE exE conjE) (simp_all add: extends_graphics)
qed

lemma GetGraphicsPipeline_fresh:
  assumes "GetGraphicsPipeline E k s = (Inr p, s')" "graphics_cache s k = None" "invs s"
  shows "next_instance s \<le> pipeline_instance p"
  using GetGraphicsPipeline_disj [OF assms(1)]
proof (elim disjE exE conjE)
  fix p' assume "k = last_graphics_key s" "last_graphics_pipeline s = Some p'"
  with assms(3) have "graphics_cache s k = Some p'"
    by (simp add: invs_def fast_inv_def)
  with assms(2) show ?thesis by simp
next
  fix p' assume "graphics_cache s k = Some p'"
  with assms(2) show ?thesis by simp
next
  assume "CreateGraphicsPipeline E k s = (Inr p, s')"
  from CreateGraphicsPipeline_disj [OF this] show ?thesis
    by (elim disjE exE conjE) (auto simp: extends_def)
qed

lemma pair_fst_snd: "fst x = a \<Longrightarrow> x = (a, snd x)"
  by (cases x) simp

lemma resolved_nth:
  assumes "resolved s addrs shs" "i < length addrs" "addrs ! i = Some a"
  shows "shs ! i = shader_cache s a \<and> shs ! i \<noteq> None"
proof -
  from assms(1) have "list_all2 (\<lambda>a sh. case a of None \<Rightarrow> sh = None
                        | Some x \<Rightarrow> sh \<noteq> None \<and> shader_cache s x = sh) addrs shs"
    by (simp add: resolved_def)
  from list_all2_nthD [OF this assms(2)] assms(3) show ?thesis
    by simp
qed

text \<open>A request that fails when all shaders of the key are registered changes nothing.\<close>

lemma registered_resolved:
  "\<forall>a \<in> set addrs. a \<noteq> 0 \<longrightarrow> shader_cache s a \<noteq> None \<Longrightarrow>
   resolved s (map (\<lambda>a. if a = 0 then None else Some a) addrs)
     (map (\<lambda>a. if a = 0 then None else shader_cache s a) addrs)"
  by (induction addrs) (auto simp: resolved_def)

lemma registered_build_error_same_state:
  assumes reg: "\<forall>a \<in> set (shaders k). a \<noteq> 0 \<longrightarrow> shader_cache s a \<noteq> None"
    and err: "fst (GetGraphicsPipeline E k s) = Inl e"
  shows "snd (GetGraphicsPipeline E k s) = s"
proof -
  let ?addrs = "map (\<lambda>a. if a = 0 then None else Some a) (shaders k)"
  let ?shs = "map (\<lambda>a. if a = 0 then None else shader_cache s a) (shaders k)"
  have "resolved s ?addrs ?shs"
    using reg by (rule registered_resolved)
  then have hit: "resolve_stages E 0 ?addrs s = (Inr ?shs, s)"
    by (rule resolve_stages_hit)
  have create: "fst (CreateGraphicsPipeline E k s) = Inl e \<Longrightarrow>
                  snd (CreateGraphicsPipeline E k s) = s"
    unfolding CreateGraphicsPipeline_def hit
    by (simp add: Let_def split: option.splits)
  have run: "GetGraphicsPipeline E k s = (Inl e, snd (GetGraphicsPipeline E k s))"
    using err by (rule pair_fst_snd)
  from GetGraphicsPipeline_disj [OF run]
  have c: "CreateGraphicsPipeline E k s = (Inl e, snd (GetGraphicsPipeline E k s))"
    by auto
  with create show ?thesis
    by simp
qed

text \<open>Unfolding the example inputs.\<close>

lemmas ex_defs = ex_init_def ex_env_def ex_key_def ex_shader_def ex_entries_def ex_stride_def
  VKPipelineCache_init_def GetGraphicsPipeline_def CreateGraphicsPipeline_def GetOrCreate_def
  GetShaders_def GetComputePipeline_def Unregister_def GetGpuAddr_def
  FillDescriptorUpdateTemplateEntries_def Let_def

section \<open>Properties of the key types and of the shader object\<close>

text \<open>
  C1. For every pair of graphics keys \<open>a\<close> and \<open>b\<close>, \<open>a == b\<close> holds exactly when
  the fixed states are equal (by \<open>FixedPipelineState::operator==\<close>), the full arrays of
  shader addresses are equal, and the render-pass parameters are equal (by
  \<open>RenderPassParams::operator==\<close>). Whenever \<open>a == b\<close> holds, the two keys have the
  same \<open>Hash\<close>, given that the hashes of the two component types respect their
  equalities.
\<close>

theorem GraphicsPipelineCacheKey_eq_fieldwise:
  "(GraphicsPipelineCacheKey_eq D a b \<longleftrightarrow>
      FixedPipelineState_eq D (fixed_state a) (fixed_state b) \<and>
      shaders a = shaders b \<and>
      RenderPassParams_eq D (renderpass_params a) (renderpass_params b)) \<and>
   ((\<forall>x y. FixedPipelineState_eq D x y \<longrightarrow>
        FixedPipelineState_Hash D x = FixedPipelineState_Hash D y) \<longrightarrow>
    (\<forall>x y. RenderPassParams_eq D x y \<longrightarrow>
        RenderPassParams_Hash D x = RenderPassParams_Hash D y) \<longrightarrow>
    GraphicsPipelineCacheKey_eq D a b \<longrightarrow>
    GraphicsPipelineCacheKey_Hash D a = GraphicsPipelineCacheKey_Hash D b)"
  by (auto simp: GraphicsPipelineCacheKey_eq_def GraphicsPipelineCacheKey_Hash_def array_eq_iff)

text \<open>
  Two keys whose fixed states differ but compare equal, and two keys whose shader arrays
  differ.
\<close>

theorem GraphicsPipelineCacheKey_eq_fieldwise_witness:
  "GraphicsPipelineCacheKey_eq ex_deps (ex_key 1) (ex_key 3) \<and>
   GraphicsPipelineCacheKey_Hash ex_deps (ex_key 1) =
     GraphicsPipelineCacheKey_Hash ex_deps (ex_key 3) \<and>
   \<not> GraphicsPipelineCacheKey_eq ex_deps (ex_key 1) (ex_key_swapped 1)"
  using GraphicsPipelineCacheKey_eq_fieldwise [of ex_deps "ex_key 1" "ex_key 3"] GraphicsPipelineCacheKey_eq_fieldwise [of ex_deps "ex_key 1" "ex_key_swapped 1"]
  by (simp add: ex_deps_def ex_key_def ex_key_swapped_def)

text \<open>
  C3. \<open>GraphicsPipelineCacheKey::Hash\<close> starts from the fixed-state hash, combines each
  shader address in stage order and then the render-pass-parameter hash: it is the
  function \<open>spec_Hash_order\<close> of the key, whatever the combiner is. The order matters:
  for a combiner that is one-to-one in the seed, swapping two adjacent shader addresses
  leaves the hash unchanged exactly when the combiner itself gives the same seed for
  both orders of the two addresses.
\<close>

theorem GraphicsPipelineCacheKey_Hash_order:
  "GraphicsPipelineCacheKey_Hash D k = spec_Hash_order D k \<and>
   ((\<forall>v. inj (\<lambda>h. hash_combine D h v)) \<longrightarrow>
    fixed_state k' = fixed_state k \<longrightarrow> renderpass_params k' = renderpass_params k \<longrightarrow>
    shaders k = pre @ a # b # post \<longrightarrow> shaders k' = pre @ b # a # post \<longrightarrow>
    (GraphicsPipelineCacheKey_Hash D k = GraphicsPipelineCacheKey_Hash D k' \<longleftrightarrow>
     hash_combine D (hash_combine D
        (foldl (hash_combine D) (FixedPipelineState_Hash D (fixed_state k)) pre) a) b =
     hash_combine D (hash_combine D
        (foldl (hash_combine D) (FixedPipelineState_Hash D (fixed_state k)) pre) b) a))"
proof (intro conjI impI)
  show "GraphicsPipelineCacheKey_Hash D k = spec_Hash_order D k"
    by (simp add: GraphicsPipelineCacheKey_Hash_def spec_Hash_order_def hash_shaders_foldl)
next
  assume inj: "\<forall>v. inj (\<lambda>h. hash_combine D h v)"
    and fs: "fixed_state k' = fixed_state k"
    and rp: "renderpass_params k' = renderpass_params k"
    and sk: "shaders k = pre @ a # b # post"
    and sk': "shaders k' = pre @ b # a # post"
  have last: "hash_combine D x v = hash_combine D y v \<longleftrightarrow> x = y" for x y v
    using inj by (auto dest: injD)
  have fold: "foldl (hash_combine D) x post = foldl (hash_combine D) y post \<longleftrightarrow> x = y" for x y
    using inj by (intro foldl_inj) simp
  show "GraphicsPipelineCacheKey_Hash D k = GraphicsPipelineCacheKey_Hash D k' \<longleftrightarrow>
     hash_combine D (hash_combine D
        (foldl (hash_combine D) (FixedPipelineState_Hash D (fixed_state k)) pre) a) b =
     hash_combine D (hash_combine D
        (foldl (hash_combine D) (FixedPipelineState_Hash D (fixed_state k)) pre) b) a"
    by (simp add: GraphicsPipelineCacheKey_Hash_def hash_shaders_foldl fs rp sk sk' last fold)
qed

text \<open>
  The example key and the key with its first two shader addresses swapped hash
  differently under the combiner \<open>value - seed\<close>.
\<close>

theorem GraphicsPipelineCacheKey_Hash_order_witness:
  "(\<forall>v. inj (\<lambda>h. hash_combine ex_deps_sub h v)) \<and>
   GraphicsPipelineCacheKey_Hash ex_deps_sub (ex_key 1) = spec_Hash_order ex_deps_sub (ex_key 1) \<and>
   GraphicsPipelineCacheKey_Hash ex_deps_sub (ex_key 1) \<noteq>
     GraphicsPipelineCacheKey_Hash ex_deps_sub (ex_key_swapped 1)"
proof -
  have h: "\<forall>v. inj (\<lambda>h. hash_combine ex_deps_sub h v)"
    by (simp add: ex_deps_sub_def inj_sub_seed)
  have "hash_combine ex_deps_sub (hash_combine ex_deps_sub
          (foldl (hash_combine ex_deps_sub)
             (FixedPipelineState_Hash ex_deps_sub (fixed_state (ex_key 1))) []) 0x1000) 0 \<noteq>
        hash_combine ex_deps_sub (hash_combine ex_deps_sub
          (foldl (hash_combine ex_deps_sub)
             (FixedPipelineState_Hash ex_deps_sub (fixed_state (ex_key 1))) []) 0) 0x1000"
    by (simp add: ex_deps_sub_def ex_deps_def ex_key_def)
  with h GraphicsPipelineCacheKey_Hash_order [of ex_deps_sub "ex_key 1" "ex_key_swapped 1" "[]" "0x1000" 0 "[0, 0, 0x2000, 0]"]
  show ?thesis
    by (auto simp: ex_key_def ex_key_swapped_def)
qed

text \<open>
  C4. Two compute keys are equal exactly when the shader address, the shared-memory
  size and all three workgroup-size components are equal. The keys
  \<open>{shader = 0x1000, shared_mem = 256, wg = (8, 8, 1)}\<close> and
  \<open>{shader = 0x1000, shared_mem = 256, wg = (8, 1, 1)}\<close> are unequal. Two keys with the
  same hash that differ in a field are still unequal.
\<close>

theorem ComputePipelineCacheKey_eq_exact:
  "(ComputePipelineCacheKey_eq a b \<longleftrightarrow>
      shader a = shader b \<and> shared_memory_size a = shared_memory_size b \<and>
      wg0 (workgroup_size a) = wg0 (workgroup_size b) \<and>
      wg1 (workgroup_size a) = wg1 (workgroup_size b) \<and>
      wg2 (workgroup_size a) = wg2 (workgroup_size b)) \<and>
   \<not> ComputePipelineCacheKey_eq
       \<lparr>shader = 0x1000, shared_memory_size = 256, workgroup_size = (8, 8, 1)\<rparr>
       \<lparr>shader = 0x1000, shared_memory_size = 256, workgroup_size = (8, 1, 1)\<rparr> \<and>
   (ComputePipelineCacheKey_Hash a = ComputePipelineCacheKey_Hash b \<longrightarrow>
    (shader a \<noteq> shader b \<or> shared_memory_size a \<noteq> shared_memory_size b \<or>
     workgroup_size a \<noteq> workgroup_size b) \<longrightarrow>
    \<not> ComputePipelineCacheKey_eq a b)"
  by (auto simp: ComputePipelineCacheKey_eq_def array3_eq_def wg0_def wg1_def wg2_def prod_eq_iff)

text \<open>The keys with shared-memory sizes 0 and 100 collide and are unequal.\<close>

theorem ComputePipelineCacheKey_eq_exact_witness:
  "ComputePipelineCacheKey_Hash (ex_compute 0 (8, 8, 1)) =
     ComputePipelineCacheKey_Hash (ex_compute 100 (8, 8, 1)) \<and>
   shared_memory_size (ex_compute 0 (8, 8, 1)) \<noteq> shared_memory_size (ex_compute 100 (8, 8, 1)) \<and>
   \<not> ComputePipelineCacheKey_eq (ex_compute 0 (8, 8, 1)) (ex_compute 100 (8, 8, 1))"
  using ComputePipelineCacheKey_eq_exact [of "ex_compute 0 (8, 8, 1)" "ex_compute 100 (8, 8, 1)"]
  by (simp add: ex_compute_def ComputePipelineCacheKey_Hash_def wg0_def wg1_def wg2_def)

text \<open>
  C9. \<open>ComputePipelineCacheKey::Hash\<close> drops the low 7 bits of \<open>shared_memory_size\<close>:
  replacing the size by one in the same 128-byte bucket leaves the hash unchanged, and
  the size contributes only \<open>(shared_memory_size >> 7) << 40\<close>. The keys with sizes 0
  and 100, same shader address and workgroup size, are unequal and have the same hash.
  Equal keys have equal hashes.
\<close>

theorem ComputePipelineCacheKey_Hash_bucket:
  "(drop_bit 7 s = drop_bit 7 (shared_memory_size k) \<longrightarrow>
      ComputePipelineCacheKey_Hash (k\<lparr>shared_memory_size := s\<rparr>) =
      ComputePipelineCacheKey_Hash k) \<and>
   ComputePipelineCacheKey_Hash k =
     ComputePipelineCacheKey_Hash (k\<lparr>shared_memory_size := 0\<rparr>) XOR
     push_bit 40 (ucast (drop_bit 7 (shared_memory_size k))) \<and>
   (\<not> ComputePipelineCacheKey_eq
        \<lparr>shader = 0x1000, shared_memory_size = 0, workgroup_size = (8, 8, 1)\<rparr>
        \<lparr>shader = 0x1000, shared_memory_size = 100, workgroup_size = (8, 8, 1)\<rparr> \<and>
    ComputePipelineCacheKey_Hash
        \<lparr>shader = 0x1000, shared_memory_size = 0, workgroup_size = (8, 8, 1)\<rparr> =
    ComputePipelineCacheKey_Hash
        \<lparr>shader = 0x1000, shared_memory_size = 100, workgroup_size = (8, 8, 1)\<rparr>) \<and>
   (ComputePipelineCacheKey_eq a b \<longrightarrow>
      ComputePipelineCacheKey_Hash a = ComputePipelineCacheKey_Hash b)"
proof (intro conjI impI)
  show "ComputePipelineCacheKey_Hash k =
     ComputePipelineCacheKey_Hash (k\<lparr>shared_memory_size := 0\<rparr>) XOR
     push_bit 40 (ucast (drop_bit 7 (shared_memory_size k)))"
    by (simp add: ComputePipelineCacheKey_Hash_def drop_bit_7_ucast ac_simps)
qed (simp_all add: ComputePipelineCacheKey_Hash_def drop_bit_7_ucast ComputePipelineCacheKey_eq_def
       array3_eq_def wg0_def wg1_def wg2_def)

text \<open>Sizes 0 and 100 share a bucket; the hash of the key with size 256.\<close>

theorem ComputePipelineCacheKey_Hash_bucket_witness:
  "drop_bit 7 (100 :: u32) = drop_bit 7 (shared_memory_size (ex_compute 0 (8, 8, 1))) \<and>
   ComputePipelineCacheKey_Hash ((ex_compute 0 (8, 8, 1))\<lparr>shared_memory_size := 100\<rparr>) =
     ComputePipelineCacheKey_Hash (ex_compute 0 (8, 8, 1)) \<and>
   ComputePipelineCacheKey_eq (ex_compute 256 (8, 8, 1)) (ex_compute 256 (8, 8, 1)) \<and>
   ComputePipelineCacheKey_Hash (ex_compute 256 (8, 8, 1)) = 0x20001081008"
  using ComputePipelineCacheKey_Hash_bucket [of 100 "ex_compute 0 (8, 8, 1)" "ex_compute 256 (8, 8, 1)" "ex_compute 256 (8, 8, 1)"]
  by (simp add: ex_compute_def ComputePipelineCacheKey_eq_def array3_eq_def
        ComputePipelineCacheKey_Hash_def wg0_def wg1_def wg2_def)

text \<open>
  C10. For every shader object, \<open>GetSizeInBytes\<close> returns the number of 64-bit words
  of its program bytecode multiplied by 8: as a \<open>std::size_t\<close> it is the product, and
  as a number it is the product for every vector that fits the address space, where the
  multiplication does not wrap around.
\<close>

theorem GetSizeInBytes_words:
  "GetSizeInBytes sh = of_nat (length (program_code sh) * 8) \<and>
   (vector_u64_ok (program_code sh) \<longrightarrow>
      unat (GetSizeInBytes sh) = length (program_code sh) * 8)"
proof (intro conjI impI)
  show eq: "GetSizeInBytes sh = of_nat (length (program_code sh) * 8)"
    by (simp add: GetSizeInBytes_def)
  assume "vector_u64_ok (program_code sh)"
  then have lt: "length (program_code sh) * 8 < 2 ^ 64"
    by (simp add: vector_u64_ok_def)
  from eq have "unat (GetSizeInBytes sh) = (length (program_code sh) * 8) mod 2 ^ 64"
    by (simp only: unat_of_nat) simp
  with lt show "unat (GetSizeInBytes sh) = length (program_code sh) * 8"
    by simp
qed

text \<open>A program of three words takes 24 bytes.\<close>

theorem GetSizeInBytes_words_witness:
  "vector_u64_ok (program_code (ex_shader 0 0x1000)) \<and>
   unat (GetSizeInBytes (ex_shader 0 0x1000)) = 24"
  using GetSizeInBytes_words [of "ex_shader 0 0x1000"]
  by (simp add: ex_shader_def vector_u64_ok_def)

section \<open>Properties of the binding enumeration\<close>

text \<open>
  C5. For every shader entry list, starting binding and offset, and template entries
  collected so far, the enumeration keeps the entries collected so far and appends one
  entry per declared resource, in the order constant buffers, global buffers, texture
  samples, storage images and in declaration order within a category; the binding
  indices count up by one from the starting binding, and each entry carries the category
  and the count of its resource. For a shader with 2 constant buffers, 1 global buffer
  and 3 texture samples, enumerated from binding 0, the indices are 0, 1 (constant
  buffers), 2 (global buffer), 3, 4, 5 (texture samples).
\<close>

theorem FillDescriptorUpdateTemplateEntries_order:
  "(case FillDescriptorUpdateTemplateEntries stride e (binding, offset, out) of
      (binding', offset', out') \<Rightarrow>
        binding' = binding + of_nat (length (declared_resources e)) \<and>
        take (length out) out' = out \<and>
        map dstBinding (drop (length out) out') =
          map (\<lambda>i. binding + of_nat i) [0..<length (declared_resources e)] \<and>
        map entry_category (drop (length out) out') = map fst (declared_resources e) \<and>
        map descriptorCount (drop (length out) out') =
          map (\<lambda>cr. declared_count (snd cr)) (declared_resources e)) \<and>
   (length (const_buffers e) = 2 \<longrightarrow> length (global_buffers e) = 1 \<longrightarrow>
    length (samplers e) = 3 \<longrightarrow> images e = [] \<longrightarrow>
    map (\<lambda>t. (dstBinding t, entry_category t))
      (snd (snd (FillDescriptorUpdateTemplateEntries stride e (0, 0, [])))) =
    [(0, ConstantBuffer), (1, ConstantBuffer), (2, GlobalBuffer),
     (3, TextureSample), (4, TextureSample), (5, TextureSample)])"
proof (intro conjI impI)
  from Fill_closed [of stride e binding offset out] obtain offset' new where
    run: "FillDescriptorUpdateTemplateEntries stride e (binding, offset, out) =
       (binding + of_nat (length (declared_resources e)), offset', out @ new)"
    and b: "map dstBinding new = map (\<lambda>i. binding + of_nat i) [0..<length (declared_resources e)]"
    and c: "map entry_category new = map fst (declared_resources e)"
    and d: "map descriptorCount new = map (\<lambda>cr. declared_count (snd cr)) (declared_resources e)"
    by blast
  show "case FillDescriptorUpdateTemplateEntries stride e (binding, offset, out) of
      (binding', offset', out') \<Rightarrow>
        binding' = binding + of_nat (length (declared_resources e)) \<and>
        take (length out) out' = out \<and>
        map dstBinding (drop (length out) out') =
          map (\<lambda>i. binding + of_nat i) [0..<length (declared_resources e)] \<and>
        map entry_category (drop (length out) out') = map fst (declared_resources e) \<and>
        map descriptorCount (drop (length out) out') =
          map (\<lambda>cr. declared_count (snd cr)) (declared_resources e)"
    unfolding run using b c d by simp
next
  assume cb: "length (const_buffers e) = 2" and gb: "length (global_buffers e) = 1"
    and sm: "length (samplers e) = 3" and im: "images e = []"
  from cb obtain c0 c1 where cbs: "const_buffers e = [c0, c1]"
    by (auto simp: length_Suc_conv numeral_2_eq_2)
  from gb obtain g0 where gbs: "global_buffers e = [g0]"
    by (auto simp: length_Suc_conv)
  from sm obtain t0 t1 t2 where sms: "samplers e = [t0, t1, t2]"
    by (auto simp: length_Suc_conv numeral_3_eq_3)
  show "map (\<lambda>t. (dstBinding t, entry_category t))
      (snd (snd (FillDescriptorUpdateTemplateEntries stride e (0, 0, [])))) =
    [(0, ConstantBuffer), (1, ConstantBuffer), (2, GlobalBuffer),
     (3, TextureSample), (4, TextureSample), (5, TextureSample)]"
    by (simp add: FillDescriptorUpdateTemplateEntries_def cbs gbs sms im)
qed

text \<open>The example shader: bindings 0 to 5, the array of four textures takes one binding.\<close>

theorem FillDescriptorUpdateTemplateEntries_order_witness:
  "length (const_buffers ex_entries) = 2 \<and> length (global_buffers ex_entries) = 1 \<and>
   length (samplers ex_entries) = 3 \<and> images ex_entries = [] \<and>
   map dstBinding (snd (snd (FillDescriptorUpdateTemplateEntries ex_stride ex_entries (0, 0, [])))) =
     [0, 1, 2, 3, 4, 5] \<and>
   map descriptorCount
     (snd (snd (FillDescriptorUpdateTemplateEntries ex_stride ex_entries (0, 0, [])))) =
     [1, 1, 1, 1, 4, 1]"
  using FillDescriptorUpdateTemplateEntries_order [where stride = ex_stride and e = ex_entries and binding = 0 and offset = 0
      and out = "[]"]
  by (simp add: ex_entries_def ex_stride_def FillDescriptorUpdateTemplateEntries_def)

section \<open>Properties of the pipeline cache\<close>

text \<open>
  C2. Once a call \<open>GetGraphicsPipeline(k)\<close> on a cache instance has returned a
  pipeline object, every later call with \<open>k\<close> on that instance returns this object,
  whatever calls were made in between and whatever the collaborators answer. On a
  fresh cache, after successful requests for \<open>k1\<close> and then \<open>k2\<close> with
  \<open>k1 \<noteq> k2\<close>, a third request for \<open>k1\<close> returns the object of the first request,
  which is not the object of the second, and the graphics map holds exactly the two
  entries \<open>k1\<close> and \<open>k2\<close>.
\<close>

theorem GetGraphicsPipeline_same_instance:
  "(fst (GetGraphicsPipeline E k
           (run cs (VKPipelineCache_init k0 :: ('fs, 'rp, 'reg, 'ir) VKPipelineCache))) = Inr p \<longrightarrow>
      fst (GetGraphicsPipeline E' k
             (run cs' (snd (GetGraphicsPipeline E k (run cs (VKPipelineCache_init k0)))))) =
        Inr p) \<and>
   (k1 \<noteq> k2 \<longrightarrow>
    fst (GetGraphicsPipeline E1 k1
           (VKPipelineCache_init k0 :: ('fs, 'rp, 'reg, 'ir) VKPipelineCache)) = Inr p1 \<longrightarrow>
    fst (GetGraphicsPipeline E2 k2 (snd (GetGraphicsPipeline E1 k1 (VKPipelineCache_init k0)))) =
      Inr p2 \<longrightarrow>
    (let s2 = snd (GetGraphicsPipeline E2 k2
                     (snd (GetGraphicsPipeline E1 k1 (VKPipelineCache_init k0))))
     in fst (GetGraphicsPipeline E3 k1 s2) = Inr p1 \<and>
        pipeline_instance p2 \<noteq> pipeline_instance p1 \<and>
        dom (graphics_cache (snd (GetGraphicsPipeline E3 k1 s2))) = {k1, k2} \<and>
        card (dom (graphics_cache (snd (GetGraphicsPipeline E3 k1 s2)))) = 2))"
proof (intro conjI impI)
  let ?s = "run cs (VKPipelineCache_init k0)"
  assume "fst (GetGraphicsPipeline E k ?s) = Inr p"
  then have run: "GetGraphicsPipeline E k ?s = (Inr p, snd (GetGraphicsPipeline E k ?s))"
    by (rule pair_fst_snd)
  have i: "invs ?s" by (simp add: run_invs init_invs)
  have i1: "invs (snd (GetGraphicsPipeline E k ?s))"
    using run i by (rule GetGraphicsPipeline_invs)
  have "graphics_cache (snd (GetGraphicsPipeline E k ?s)) k = Some p"
    using run i by (rule GetGraphicsPipeline_cached)
  then have "graphics_cache (run cs' (snd (GetGraphicsPipeline E k ?s))) k = Some p"
    by (rule run_keeps)
  moreover have "invs (run cs' (snd (GetGraphicsPipeline E k ?s)))"
    using i1 by (rule run_invs)
  ultimately show "fst (GetGraphicsPipeline E' k (run cs' (snd (GetGraphicsPipeline E k ?s)))) = Inr p"
    by (rule cached_returned)
next
  let ?s0 = "VKPipelineCache_init k0 :: ('fs, 'rp, 'reg, 'ir) VKPipelineCache"
  let ?s1 = "snd (GetGraphicsPipeline E1 k1 ?s0)"
  let ?s2 = "snd (GetGraphicsPipeline E2 k2 ?s1)"
  let ?s3 = "snd (GetGraphicsPipeline E3 k1 ?s2)"
  assume ne: "k1 \<noteq> k2"
    and "fst (GetGraphicsPipeline E1 k1 ?s0) = Inr p1"
    and "fst (GetGraphicsPipeline E2 k2 ?s1) = Inr p2"
  then have r1: "GetGraphicsPipeline E1 k1 ?s0 = (Inr p1, ?s1)"
    and r2: "GetGraphicsPipeline E2 k2 ?s1 = (Inr p2, ?s2)"
    by (simp_all add: pair_fst_snd)
  have i0: "invs ?s0" by (rule init_invs)
  have i1: "invs ?s1" using r1 i0 by (rule GetGraphicsPipeline_invs)
  have i2: "invs ?s2" using r2 i1 by (rule GetGraphicsPipeline_invs)
  have d0: "dom (graphics_cache ?s0) = {}" by (simp add: VKPipelineCache_init_def)
  have d1: "dom (graphics_cache ?s1) = {k1}"
    using GetGraphicsPipeline_dom [OF r1 i0] d0 by simp
  have d2: "dom (graphics_cache ?s2) = {k1, k2}"
    using GetGraphicsPipeline_dom [OF r2 i1] d1 by auto
  have in1: "graphics_cache ?s1 k1 = Some p1"
    using r1 i0 by (rule GetGraphicsPipeline_cached)
  have in2: "graphics_cache ?s2 k1 = Some p1"
    using r2 in1 by (rule GetGraphicsPipeline_keeps)
  have third: "fst (GetGraphicsPipeline E3 k1 ?s2) = Inr p1"
    using in2 i2 by (rule cached_returned)
  then have r3: "GetGraphicsPipeline E3 k1 ?s2 = (Inr p1, ?s3)"
    by (rule pair_fst_snd)
  have d3: "dom (graphics_cache ?s3) = {k1, k2}"
    using GetGraphicsPipeline_dom [OF r3 i2] d2 by auto
  have "k2 \<notin> dom (graphics_cache ?s1)" using d1 ne by simp
  then have "graphics_cache ?s1 k2 = None" by auto
  then have "next_instance ?s1 \<le> pipeline_instance p2"
    using r2 i1 GetGraphicsPipeline_fresh by blast
  moreover have "pipeline_instance p1 < next_instance ?s1"
    using i1 in1 unfolding invs_def pipeline_inv_def by blast
  ultimately have inst: "pipeline_instance p2 \<noteq> pipeline_instance p1" by simp
  show "let s2 = ?s2
     in fst (GetGraphicsPipeline E3 k1 s2) = Inr p1 \<and>
        pipeline_instance p2 \<noteq> pipeline_instance p1 \<and>
        dom (graphics_cache (snd (GetGraphicsPipeline E3 k1 s2))) = {k1, k2} \<and>
        card (dom (graphics_cache (snd (GetGraphicsPipeline E3 k1 s2)))) = 2"
    using third inst d3 ne by (simp add: Let_def)
qed

text \<open>
  Three requests on a fresh cache, and a request after the vertex shader was
  unregistered and resolved again, with a decompiler that fails.
\<close>

theorem GetGraphicsPipeline_same_instance_witness:
  "fst (GetGraphicsPipeline ex_env (ex_key 1) (run [] ex_init)) =
     Inr \<lparr>pipeline_instance = 2, pipeline_handle = 7\<rparr> \<and>
   fst (GetGraphicsPipeline ex_env_nodecompile (ex_key 1)
          (run [CallUnregister (ex_shader 0 0x1000), CallGetShaders ex_env]
             (snd (GetGraphicsPipeline ex_env (ex_key 1) (run [] ex_init))))) =
     Inr \<lparr>pipeline_instance = 2, pipeline_handle = 7\<rparr> \<and>
   ex_key 1 \<noteq> ex_key 2 \<and>
   fst (GetGraphicsPipeline ex_env (ex_key 2)
          (snd (GetGraphicsPipeline ex_env (ex_key 1) ex_init))) =
     Inr \<lparr>pipeline_instance = 3, pipeline_handle = 7\<rparr> \<and>
   fst (GetGraphicsPipeline ex_env (ex_key 1)
          (snd (GetGraphicsPipeline ex_env (ex_key 2)
                  (snd (GetGraphicsPipeline ex_env (ex_key 1) ex_init))))) =
     Inr \<lparr>pipeline_instance = 2, pipeline_handle = 7\<rparr> \<and>
   card (dom (graphics_cache
          (snd (GetGraphicsPipeline ex_env (ex_key 1)
             (snd (GetGraphicsPipeline ex_env (ex_key 2)
                     (snd (GetGraphicsPipeline ex_env (ex_key 1) ex_init)))))))) = 2"
proof -
  have h1: "fst (GetGraphicsPipeline ex_env (ex_key 1) ex_init) =
              Inr \<lparr>pipeline_instance = 2, pipeline_handle = 7\<rparr>"
    by (simp add: ex_defs)
  have h2: "fst (GetGraphicsPipeline ex_env (ex_key 2)
                  (snd (GetGraphicsPipeline ex_env (ex_key 1) ex_init))) =
              Inr \<lparr>pipeline_instance = 3, pipeline_handle = 7\<rparr>"
    by (simp add: ex_defs)
  have ne: "ex_key 1 \<noteq> ex_key 2"
    by (simp add: ex_key_def)
  note t = GetGraphicsPipeline_same_instance [where E = ex_env and k = "ex_key 1" and cs = "[]" and ?k0.0 = "ex_key 0"
      and p = "\<lparr>pipeline_instance = 2, pipeline_handle = 7\<rparr>"
      and E' = ex_env_nodecompile
      and cs' = "[CallUnregister (ex_shader 0 0x1000), CallGetShaders ex_env]"
      and ?k1.0 = "ex_key 1" and ?k2.0 = "ex_key 2" and ?E1.0 = ex_env and ?E2.0 = ex_env
      and ?E3.0 = ex_env
      and ?p1.0 = "\<lparr>pipeline_instance = 2, pipeline_handle = 7\<rparr>"
      and ?p2.0 = "\<lparr>pipeline_instance = 3, pipeline_handle = 7\<rparr>"]
  show ?thesis
    using t h1 h2 ne unfolding ex_init_def [symmetric] Let_def
    by simp
qed

text \<open>
  C6. When a request \<open>GetGraphicsPipeline(k)\<close> fails with \<open>PipelineBuildError\<close>, the
  state of the pipeline cache (graphics map, compute map and fast-path slot) is what it
  was before the request and the graphics map has no entry for \<open>k\<close>; when the shaders
  of the key were registered before the request, as they are after \<open>GetShaders\<close>, the
  whole state of the instance is what it was. A later request with the same key takes
  the miss path again: once the shaders of the key are resolved, the builder is asked
  again and its answer decides the request.
\<close>

theorem GetGraphicsPipeline_build_error_not_cached:
  "fst (GetGraphicsPipeline E k s) = Inl PipelineBuildError \<longrightarrow>
     (let s' = snd (GetGraphicsPipeline E k s)
      in pipeline_state s' = pipeline_state s \<and>
         graphics_cache s' k = None \<and>
         ((\<forall>a \<in> set (shaders k). a \<noteq> 0 \<longrightarrow> shader_cache s a \<noteq> None) \<longrightarrow> s' = s) \<and>
         (\<forall>E'. GetGraphicsPipeline E' k s' = CreateGraphicsPipeline E' k s') \<and>
         (\<forall>E' shs s''.
            resolve_stages E' 0 (map (\<lambda>a. if a = 0 then None else Some a) (shaders k)) s' =
              (Inr shs, s'') \<longrightarrow>
            fst (GetGraphicsPipeline E' k s') =
              (case build_graphics E' k shs
                      (snd (snd (enumerate_bindings (template_stride E') shs (0, 0, [])))) of
                 None \<Rightarrow> Inl PipelineBuildError
               | Some h \<Rightarrow> Inr \<lparr>pipeline_instance = next_instance s'', pipeline_handle = h\<rparr>)))"
proof (intro impI)
  let ?s' = "snd (GetGraphicsPipeline E k s)"
  assume err: "fst (GetGraphicsPipeline E k s) = Inl PipelineBuildError"
  then have run: "GetGraphicsPipeline E k s = (Inl PipelineBuildError, ?s')"
    by (rule pair_fst_snd)
  from GetGraphicsPipeline_disj [OF run]
  have none: "graphics_cache s k = None"
    and fast: "k = last_graphics_key s \<longrightarrow> last_graphics_pipeline s = None"
    and create: "CreateGraphicsPipeline E k s = (Inl PipelineBuildError, ?s')"
    by auto
  from CreateGraphicsPipeline_disj [OF create] have e: "extends s ?s'"
    by auto
  then have ps: "pipeline_state ?s' = pipeline_state s"
    by (simp add: extends_def)
  then have gc: "graphics_cache ?s' = graphics_cache s"
    and lk: "last_graphics_key ?s' = last_graphics_key s"
    and lp: "last_graphics_pipeline ?s' = last_graphics_pipeline s"
    by (simp_all add: pipeline_state_def)
  have g: "graphics_cache ?s' k = None"
    unfolding gc by (rule none)
  have f: "k = last_graphics_key ?s' \<longrightarrow> last_graphics_pipeline ?s' = None"
    unfolding lk lp by (rule fast)
  have same: "(\<forall>a \<in> set (shaders k). a \<noteq> 0 \<longrightarrow> shader_cache s a \<noteq> None) \<longrightarrow> ?s' = s"
    using err by (simp add: registered_build_error_same_state)
  have again: "GetGraphicsPipeline E' k ?s' = CreateGraphicsPipeline E' k ?s'" for E'
    using g f by (simp add: GetGraphicsPipeline_def)
  have retry: "fst (GetGraphicsPipeline E' k ?s') =
              (case build_graphics E' k shs
                      (snd (snd (enumerate_bindings (template_stride E') shs (0, 0, [])))) of
                 None \<Rightarrow> Inl PipelineBuildError
               | Some h \<Rightarrow> Inr \<lparr>pipeline_instance = next_instance s'', pipeline_handle = h\<rparr>)"
    if "resolve_stages E' 0 (map (\<lambda>a. if a = 0 then None else Some a) (shaders k)) ?s' =
              (Inr shs, s'')" for E' shs s''
    unfolding again using that
    by (simp add: CreateGraphicsPipeline_def Let_def split: option.splits)
  show "let s' = ?s'
      in pipeline_state s' = pipeline_state s \<and>
         graphics_cache s' k = None \<and>
         ((\<forall>a \<in> set (shaders k). a \<noteq> 0 \<longrightarrow> shader_cache s a \<noteq> None) \<longrightarrow> s' = s) \<and>
         (\<forall>E'. GetGraphicsPipeline E' k s' = CreateGraphicsPipeline E' k s') \<and>
         (\<forall>E' shs s''.
            resolve_stages E' 0 (map (\<lambda>a. if a = 0 then None else Some a) (shaders k)) s' =
              (Inr shs, s'') \<longrightarrow>
            fst (GetGraphicsPipeline E' k s') =
              (case build_graphics E' k shs
                      (snd (snd (enumerate_bindings (template_stride E') shs (0, 0, [])))) of
                 None \<Rightarrow> Inl PipelineBuildError
               | Some h \<Rightarrow> Inr \<lparr>pipeline_instance = next_instance s'', pipeline_handle = h\<rparr>))"
    unfolding Let_def using ps g same again retry by blast
qed

text \<open>
  After \<open>GetShaders\<close> the builder rejects fixed state 0 and the state stays; asked again
  it rejects again, and a builder that accepts gets a pipeline.
\<close>

theorem GetGraphicsPipeline_build_error_not_cached_witness:
  "fst (GetGraphicsPipeline ex_env (ex_key 0) (run [CallGetShaders ex_env] ex_init)) =
     Inl PipelineBuildError \<and>
   snd (GetGraphicsPipeline ex_env (ex_key 0) (run [CallGetShaders ex_env] ex_init)) =
     run [CallGetShaders ex_env] ex_init \<and>
   graphics_cache (snd (GetGraphicsPipeline ex_env (ex_key 0)
                          (run [CallGetShaders ex_env] ex_init))) (ex_key 0) = None \<and>
   fst (GetGraphicsPipeline ex_env (ex_key 0)
          (snd (GetGraphicsPipeline ex_env (ex_key 0) (run [CallGetShaders ex_env] ex_init)))) =
     Inl PipelineBuildError \<and>
   fst (GetGraphicsPipeline
          (ex_env\<lparr>build_graphics := (\<lambda>k shs layout. Some 8)\<rparr>) (ex_key 0)
          (snd (GetGraphicsPipeline ex_env (ex_key 0) (run [CallGetShaders ex_env] ex_init)))) =
     Inr \<lparr>pipeline_instance = 2, pipeline_handle = 8\<rparr>"
proof -
  let ?s = "run [CallGetShaders ex_env] ex_init"
  have h: "fst (GetGraphicsPipeline ex_env (ex_key 0) ?s) = Inl PipelineBuildError"
    by (simp add: ex_defs)
  have reg: "\<forall>a \<in> set (shaders (ex_key 0)). a \<noteq> 0 \<longrightarrow> shader_cache ?s a \<noteq> None"
    by (simp add: ex_defs)
  note t = GetGraphicsPipeline_build_error_not_cached [of ex_env "ex_key 0" ?s, unfolded Let_def, rule_format, OF h]
  have same: "snd (GetGraphicsPipeline ex_env (ex_key 0) ?s) = ?s"
    using t reg by blast
  have a: "fst (GetGraphicsPipeline ex_env (ex_key 0) ?s) = Inl PipelineBuildError"
    by (rule h)
  have b: "fst (GetGraphicsPipeline
          (ex_env\<lparr>build_graphics := (\<lambda>k shs layout. Some 8)\<rparr>) (ex_key 0) ?s) =
     Inr \<lparr>pipeline_instance = 2, pipeline_handle = 8\<rparr>"
    by (simp add: ex_defs)
  have g: "graphics_cache (snd (GetGraphicsPipeline ex_env (ex_key 0) ?s)) (ex_key 0) = None"
    using t by blast
  show ?thesis
    using h g a b unfolding same by (intro conjI) (rule refl | assumption)+
qed

text \<open>
  C7. In every state a cache instance can reach, unregistering a registered shader
  removes it from the Shader Object Cache and leaves the graphics and compute maps as
  they are. A later lookup of its GPU address that returns a shader returns a new object,
  built from what the decompiler answers at that time; so does \<open>GetShaders\<close> for a
  stage bound to that address.
\<close>

theorem Unregister_fresh_miss:
  "shader_cache (run cs (VKPipelineCache_init k0 :: ('fs, 'rp, 'reg, 'ir) VKPipelineCache)) a
     = Some sh \<longrightarrow>
   (let s = run cs (VKPipelineCache_init k0 :: ('fs, 'rp, 'reg, 'ir) VKPipelineCache);
        s' = Unregister sh s
    in shader_cache s' (GetGpuAddr sh) = None \<and>
       (\<forall>b. shader_cache s' b \<noteq> Some sh) \<and>
       graphics_cache s' = graphics_cache s \<and>
       compute_cache s' = compute_cache s \<and>
       (\<forall>E st c sh'. fst (GetOrCreate E st (GetGpuAddr sh) c s') = Inr sh' \<longrightarrow>
          shader_instance sh' \<noteq> shader_instance sh \<and>
          Decompile E (fst (read_program E st (GetGpuAddr sh))) st
            (snd (read_program E st (GetGpuAddr sh))) =
            Some (shader_ir sh', registry sh', entries sh')) \<and>
       (\<forall>E shs i. fst (GetShaders E s') = Inr shs \<longrightarrow> i < length (bound_programs E) \<longrightarrow>
          bound_programs E ! i = Some (GetGpuAddr sh) \<longrightarrow>
          (\<exists>sh'. shs ! i = Some sh' \<and> GetGpuAddr sh' = GetGpuAddr sh \<and>
                 shader_instance sh' \<noteq> shader_instance sh)))"
proof (intro impI)
  let ?s = "run cs (VKPipelineCache_init k0 :: ('fs, 'rp, 'reg, 'ir) VKPipelineCache)"
  let ?s' = "Unregister sh ?s"
  let ?a = "GetGpuAddr sh"
  assume reg: "shader_cache ?s a = Some sh"
  have i: "invs ?s" by (simp add: run_invs init_invs)
  then have si: "shader_inv ?s" by (simp add: invs_def)
  from si reg have a: "gpu_addr sh = a" and inst: "shader_instance sh < next_instance ?s"
    unfolding shader_inv_def by blast+
  have i': "invs ?s'" using i by (rule Unregister_invs)
  have gone: "shader_cache ?s' ?a = None"
    by (simp add: Unregister_def)
  have nowhere: "shader_cache ?s' b \<noteq> Some sh" for b
  proof
    assume b: "shader_cache ?s' b = Some sh"
    from i' have "shader_inv ?s'" by (simp add: invs_def)
    with b have "gpu_addr sh = b" unfolding shader_inv_def by blast
    with b gone show False by (simp add: GetGpuAddr_def)
  qed
  have next': "next_instance ?s' = next_instance ?s"
    by (simp add: Unregister_def)
  have lookup: "shader_instance sh' \<noteq> shader_instance sh \<and>
          Decompile E (fst (read_program E st ?a)) st (snd (read_program E st ?a)) =
            Some (shader_ir sh', registry sh', entries sh')"
    if "fst (GetOrCreate E st ?a c ?s') = Inr sh'" for E st c sh'
  proof -
    from that have "GetOrCreate E st ?a c ?s' = (Inr sh', snd (GetOrCreate E st ?a c ?s'))"
      by (rule pair_fst_snd)
    then show ?thesis
    proof (cases rule: GetOrCreate_cases)
      case (hit sh0)
      with gone show ?thesis by simp
    next
      case fail
      then show ?thesis by simp
    next
      case (new sh0)
      then show ?thesis using inst next' by auto
    qed
  qed
  have shaders: "\<exists>sh'. shs ! i = Some sh' \<and> GetGpuAddr sh' = ?a \<and>
                 shader_instance sh' \<noteq> shader_instance sh"
    if r: "fst (GetShaders E ?s') = Inr shs" and len: "i < length (bound_programs E)"
      and bound: "bound_programs E ! i = Some ?a" for E shs i
  proof -
    let ?t = "snd (GetShaders E ?s')"
    from r have run: "resolve_stages E 0 (bound_programs E) ?s' = (Inr shs, ?t)"
      unfolding GetShaders_def by (rule pair_fst_snd)
    have res: "resolved ?t (bound_programs E) shs"
      using run by (rule resolve_stages_resolved)
    have ext: "extends ?s' ?t"
      using run by (rule resolve_stages_extends)
    note rn = resolved_nth [OF res len bound]
    have eq: "shs ! i = shader_cache ?t ?a"
      using rn by (rule conjunct1)
    have some: "shs ! i \<noteq> None"
      using rn by (rule conjunct2)
    from some obtain sh' where nth: "shs ! i = Some sh'"
      by blast
    with eq have c: "shader_cache ?t ?a = Some sh'"
      by simp
    from ext c have "shader_cache ?s' ?a = Some sh' \<or>
         (gpu_addr sh' = ?a \<and> next_instance ?s' \<le> shader_instance sh' \<and>
          shader_instance sh' < next_instance ?t)"
      unfolding extends_def by blast
    with gone have "gpu_addr sh' = ?a" "next_instance ?s' \<le> shader_instance sh'"
      by simp_all
    with inst next' nth show ?thesis
      by (auto simp: GetGpuAddr_def)
  qed
  have frame: "graphics_cache ?s' = graphics_cache ?s" "compute_cache ?s' = compute_cache ?s"
    by (simp_all add: Unregister_def)
  show "let s = ?s; s' = Unregister sh s
    in shader_cache s' (GetGpuAddr sh) = None \<and>
       (\<forall>b. shader_cache s' b \<noteq> Some sh) \<and>
       graphics_cache s' = graphics_cache s \<and>
       compute_cache s' = compute_cache s \<and>
       (\<forall>E st c sh'. fst (GetOrCreate E st (GetGpuAddr sh) c s') = Inr sh' \<longrightarrow>
          shader_instance sh' \<noteq> shader_instance sh \<and>
          Decompile E (fst (read_program E st (GetGpuAddr sh))) st
            (snd (read_program E st (GetGpuAddr sh))) =
            Some (shader_ir sh', registry sh', entries sh')) \<and>
       (\<forall>E shs i. fst (GetShaders E s') = Inr shs \<longrightarrow> i < length (bound_programs E) \<longrightarrow>
          bound_programs E ! i = Some (GetGpuAddr sh) \<longrightarrow>
          (\<exists>sh'. shs ! i = Some sh' \<and> GetGpuAddr sh' = GetGpuAddr sh \<and>
                 shader_instance sh' \<noteq> shader_instance sh))"
    unfolding Let_def
    using gone nowhere frame lookup shaders by blast
qed

text \<open>
  After \<open>GetShaders\<close>, unregistering the vertex shader and calling \<open>GetShaders\<close>
  again gives a new vertex shader object and the old fragment shader object.
\<close>

theorem Unregister_fresh_miss_witness:
  "shader_cache (run [CallGetShaders ex_env] ex_init) 0x1000 = Some (ex_shader 0 0x1000) \<and>
   shader_cache (Unregister (ex_shader 0 0x1000) (run [CallGetShaders ex_env] ex_init))
     (GetGpuAddr (ex_shader 0 0x1000)) = None \<and>
   graphics_cache (Unregister (ex_shader 0 0x1000) (run [CallGetShaders ex_env] ex_init)) =
     graphics_cache (run [CallGetShaders ex_env] ex_init) \<and>
   compute_cache (Unregister (ex_shader 0 0x1000) (run [CallGetShaders ex_env] ex_init)) =
     compute_cache (run [CallGetShaders ex_env] ex_init) \<and>
   fst (GetShaders ex_env
          (Unregister (ex_shader 0 0x1000) (run [CallGetShaders ex_env] ex_init))) =
     Inr [Some (ex_shader 2 0x1000), None, None, None, Some (ex_shader 1 0x2000), None]"
proof -
  have h: "shader_cache (run [CallGetShaders ex_env] ex_init) 0x1000 = Some (ex_shader 0 0x1000)"
    by (simp add: ex_defs)
  have g: "fst (GetShaders ex_env
          (Unregister (ex_shader 0 0x1000) (run [CallGetShaders ex_env] ex_init))) =
     Inr [Some (ex_shader 2 0x1000), None, None, None, Some (ex_shader 1 0x2000), None]"
    by (simp add: ex_defs)
  from Unregister_fresh_miss [where cs = "[CallGetShaders ex_env]" and ?k0.0 = "ex_key 0" and a = "0x1000"
      and sh = "ex_shader 0 0x1000"] h g
  show ?thesis
    unfolding ex_init_def [symmetric] Let_def by simp
qed

text \<open>
  C8. In every state a cache instance can reach, two registered shader objects with the
  same GPU address are the same object under the same key of the Shader Object Cache (a
  shader object is live while it is registered). A call of \<open>GetShaders\<close> right after a
  successful one, with the same bound addresses, returns the same objects for every
  stage and changes nothing, whatever the other collaborators answer.
\<close>

theorem shader_cache_one_per_address:
  "(shader_cache (run cs (VKPipelineCache_init k0 :: ('fs, 'rp, 'reg, 'ir) VKPipelineCache)) a
      = Some sh \<longrightarrow>
    shader_cache (run cs (VKPipelineCache_init k0)) b = Some sh' \<longrightarrow>
    GetGpuAddr sh = GetGpuAddr sh' \<longrightarrow> a = b \<and> sh = sh') \<and>
   (fst (GetShaders E s) = Inr shs \<longrightarrow> bound_programs E' = bound_programs E \<longrightarrow>
    GetShaders E' (snd (GetShaders E s)) = (Inr shs, snd (GetShaders E s)))"
proof (intro conjI impI)
  let ?s = "run cs (VKPipelineCache_init k0 :: ('fs, 'rp, 'reg, 'ir) VKPipelineCache)"
  assume a: "shader_cache ?s a = Some sh" and b: "shader_cache ?s b = Some sh'"
    and eq: "GetGpuAddr sh = GetGpuAddr sh'"
  have "invs ?s" by (simp add: run_invs init_invs)
  then have "shader_inv ?s" by (simp add: invs_def)
  with a b have "gpu_addr sh = a" "gpu_addr sh' = b"
    unfolding shader_inv_def by blast+
  with eq have ab: "a = b" by (simp add: GetGpuAddr_def)
  with a b show "a = b" "sh = sh'" by simp_all
next
  let ?t = "snd (GetShaders E s)"
  assume "fst (GetShaders E s) = Inr shs" and same: "bound_programs E' = bound_programs E"
  then have "resolve_stages E 0 (bound_programs E) s = (Inr shs, ?t)"
    unfolding GetShaders_def by (simp add: pair_fst_snd)
  then have "resolved ?t (bound_programs E) shs"
    by (rule resolve_stages_resolved)
  then have "resolve_stages E' 0 (bound_programs E) ?t = (Inr shs, ?t)"
    by (rule resolve_stages_hit)
  then show "GetShaders E' ?t = (Inr shs, ?t)"
    by (simp add: GetShaders_def same)
qed

text \<open>Two calls of \<open>GetShaders\<close> on a fresh cache, the second with a decompiler that fails.\<close>

theorem shader_cache_one_per_address_witness:
  "shader_cache (run [CallGetShaders ex_env] ex_init) 0x1000 = Some (ex_shader 0 0x1000) \<and>
   GetGpuAddr (ex_shader 0 0x1000) = GetGpuAddr (ex_shader 0 0x1000) \<and>
   shader_cache (run [CallGetShaders ex_env] ex_init) 0x2000 = Some (ex_shader 1 0x2000) \<and>
   fst (GetShaders ex_env ex_init) =
     Inr [Some (ex_shader 0 0x1000), None, None, None, Some (ex_shader 1 0x2000), None] \<and>
   bound_programs ex_env_nodecompile = bound_programs ex_env \<and>
   fst (GetShaders ex_env_nodecompile (snd (GetShaders ex_env ex_init))) =
     Inr [Some (ex_shader 0 0x1000), None, None, None, Some (ex_shader 1 0x2000), None]"
proof -
  have a: "shader_cache (run [CallGetShaders ex_env] ex_init) 0x1000 = Some (ex_shader 0 0x1000)"
    and b: "shader_cache (run [CallGetShaders ex_env] ex_init) 0x2000 = Some (ex_shader 1 0x2000)"
    by (simp_all add: ex_defs)
  have g: "fst (GetShaders ex_env ex_init) =
     Inr [Some (ex_shader 0 0x1000), None, None, None, Some (ex_shader 1 0x2000), None]"
    by (simp add: ex_defs)
  have same: "bound_programs ex_env_nodecompile = bound_programs ex_env"
    by (simp add: ex_env_nodecompile_def)
  from shader_cache_one_per_address [where cs = "[CallGetShaders ex_env]" and ?k0.0 = "ex_key 0"
      and a = "0x1000" and b = "0x1000" and sh = "ex_shader 0 0x1000"
      and sh' = "ex_shader 0 0x1000"
      and E = ex_env and s = ex_init and E' = ex_env_nodecompile
      and shs = "[Some (ex_shader 0 0x1000), None, None, None, Some (ex_shader 1 0x2000), None]"]
    a b g same
  show ?thesis
    unfolding ex_init_def [symmetric] by simp
qed

end
